theory Spec2Isabelle
  imports Main
begin

section \<open>The JIT build layer of flashinfer (\<^verbatim>\<open>python/flashinfer/jit/__init__.py\<close>)\<close>

text \<open>
  The module is a thin layer over three outside services: the framework's extension
  loader (\<^verbatim>\<open>torch.utils.cpp_extension\<close>), the file system (\<^verbatim>\<open>os\<close>) and a file lock.
  The embedding keeps the module's own control flow and makes the services explicit:
  Python exceptions are values of \<open>py_error\<close> on the left of a sum, the list
  \<^verbatim>\<open>COMMON_NVCC_FLAGS\<close> and the file system are passed in and returned, and the
  loader, the outcome of the toolchain query and the constants of \<^verbatim>\<open>env.py\<close> are
  parameters.
\<close>

subsection \<open>Exceptions\<close>

datatype py_error =
    RuntimeError
  | AttributeError
  | ValueError
  | ImportError
  | FileExistsError
  | FileNotFoundError
  | NotADirectoryError
  | IsADirectoryError
  | OtherError string

subsection \<open>The capability check\<close>

text \<open>
  \<^verbatim>\<open>re.search(r"compute_(\d+)", s)\<close> returns the leftmost match: the first position at
  which \<^verbatim>\<open>compute_\<close> is followed by at least one digit, with the longest run of digits
  as group 1; it returns \<^verbatim>\<open>None\<close> when there is no such position. Strings are ASCII
  here, so \<^verbatim>\<open>\d\<close> is one of the ten decimal digits.
\<close>

definition is_digit :: "char \<Rightarrow> bool" where
  "is_digit c = (c \<in> set ''0123456789'')"

definition match_here :: "string \<Rightarrow> string option" where
  "match_here s =
     (if take 8 s = ''compute_''
      then (let ds = takeWhile is_digit (drop 8 s) in if ds = [] then None else Some ds)
      else None)"

fun re_search :: "string \<Rightarrow> string option" where
  "re_search [] = None"
| "re_search (c # cs) =
     (case match_here (c # cs) of Some ds \<Rightarrow> Some ds | None \<Rightarrow> re_search cs)"

text \<open>
  \<^verbatim>\<open>int(ds)\<close> on a nonempty string of decimal digits. Python integers are unbounded;
  the interpreter's limit on the length of a digit string it converts (4300 digits by
  default) is not modelled.
\<close>

definition digit_val :: "char \<Rightarrow> int" where
  "digit_val c = int (of_char c) - 48"

definition py_int :: "string \<Rightarrow> int" where
  "py_int ds = foldl (\<lambda>a c. 10 * a + digit_val c) 0 ds"

text \<open>
  The loop of \<^verbatim>\<open>check_cuda_arch\<close> over the flags that
  \<^verbatim>\<open>torch_cpp_ext._get_cuda_arch_flags()\<close> returned. \<^verbatim>\<open>.group(1)\<close> on \<^verbatim>\<open>None\<close> is an
  \<^verbatim>\<open>AttributeError\<close>; an architecture below 75 is the \<^verbatim>\<open>RuntimeError\<close> of the source.
\<close>

fun check_cuda_arch :: "string list \<Rightarrow> py_error + unit" where
  "check_cuda_arch [] = Inr ()"
| "check_cuda_arch (cuda_arch_flags # rest) =
     (case re_search cuda_arch_flags of
        None \<Rightarrow> Inl AttributeError
      | Some ds \<Rightarrow>
          (let arch = py_int ds
           in if arch < 75 then Inl RuntimeError else check_cuda_arch rest))"

text \<open>
  The whole call \<^verbatim>\<open>check_cuda_arch()\<close>: the argument is what
  \<^verbatim>\<open>torch_cpp_ext._get_cuda_arch_flags()\<close> did, returning its list of flag strings or
  raising; an exception of the toolchain passes through, and the loop runs on the list.
\<close>

definition check_cuda_arch_call :: "py_error + string list \<Rightarrow> py_error + unit" where
  "check_cuda_arch_call toolchain =
     (case toolchain of Inl e \<Rightarrow> Inl e | Inr flags \<Rightarrow> check_cuda_arch flags)"

text \<open>The number the check extracts from one flag string, when there is one.\<close>

definition extract_arch :: "string \<Rightarrow> int option" where
  "extract_arch s = map_option py_int (re_search s)"

subsection \<open>The file system\<close>

text \<open>
  A path is its list of components below the root (\<^verbatim>\<open>FLASHINFER_JIT_DIR / name\<close> is
  \<open>jit @ [name]\<close>), and the file system is a store of the nodes that exist, each a
  regular file or a directory. The first entry for a path is the one that counts; the
  root always exists and is a directory. File contents are not modelled.
\<close>

type_synonym path = "string list"

datatype node = File | Dir

type_synonym fs = "(path \<times> node) list"

definition node_at :: "fs \<Rightarrow> path \<Rightarrow> node option" where
  "node_at fs p = (if p = [] then Some Dir else map_of fs p)"

definition os_path_exists :: "fs \<Rightarrow> path \<Rightarrow> bool" where
  "os_path_exists fs p = (node_at fs p \<noteq> None)"

text \<open>
  \<^verbatim>\<open>os.mkdir\<close>: the path must not exist and its parent must be a directory. An
  exception leaves the file system as it is, and the state is returned with it.
\<close>

definition os_mkdir :: "path \<Rightarrow> fs \<Rightarrow> (py_error + unit) \<times> fs" where
  "os_mkdir p fs =
     (if os_path_exists fs p then (Inl FileExistsError, fs)
      else (case node_at fs (butlast p) of
              None \<Rightarrow> (Inl FileNotFoundError, fs)
            | Some File \<Rightarrow> (Inl NotADirectoryError, fs)
            | Some Dir \<Rightarrow> (Inr (), (p, Dir) # fs)))"

text \<open>
  \<^verbatim>\<open>os.makedirs(name)\<close> with \<^verbatim>\<open>exist_ok=False\<close>, as the standard library writes it: when
  the parent does not exist it is made first, recursively, a \<^verbatim>\<open>FileExistsError\<close> of
  that recursive call being ignored; then the leaf is made with \<^verbatim>\<open>os.mkdir\<close>.
\<close>

function os_makedirs :: "path \<Rightarrow> fs \<Rightarrow> (py_error + unit) \<times> fs" where
  "os_makedirs name fs =
     (if name \<noteq> [] \<and> butlast name \<noteq> [] \<and> \<not> os_path_exists fs (butlast name)
      then (case os_makedirs (butlast name) fs of
              (Inl e, fs') \<Rightarrow> if e = FileExistsError then os_mkdir name fs' else (Inl e, fs')
            | (Inr _, fs') \<Rightarrow> os_mkdir name fs')
      else os_mkdir name fs)"
  by pat_completeness auto
termination
  by (relation "measure (\<lambda>(name, fs). length name)") auto

declare os_makedirs.simps [simp del]

text \<open>
  \<^verbatim>\<open>os.listdir\<close>: the names of the entries of a directory. Python leaves their order
  open; here it is the order of the store.
\<close>

definition os_listdir :: "path \<Rightarrow> fs \<Rightarrow> (py_error + string list) \<times> fs" where
  "os_listdir d fs =
     (case node_at fs d of
        None \<Rightarrow> (Inl FileNotFoundError, fs)
      | Some File \<Rightarrow> (Inl NotADirectoryError, fs)
      | Some Dir \<Rightarrow>
          (Inr (remdups (map (\<lambda>(q, k). last q)
                  (filter (\<lambda>(q, k). q \<noteq> [] \<and> butlast q = d) fs))), fs))"

text \<open>
  \<^verbatim>\<open>os.remove\<close> unlinks a regular file and refuses a directory, with
  \<^verbatim>\<open>IsADirectoryError\<close> on Linux (other systems raise another \<^verbatim>\<open>OSError\<close>).
\<close>

definition os_remove :: "path \<Rightarrow> fs \<Rightarrow> (py_error + unit) \<times> fs" where
  "os_remove p fs =
     (case node_at fs p of
        None \<Rightarrow> (Inl FileNotFoundError, fs)
      | Some Dir \<Rightarrow> (Inl IsADirectoryError, fs)
      | Some File \<Rightarrow> (Inr (), filter (\<lambda>(q, k). q \<noteq> p) fs))"

text \<open>
  Taking a \<^verbatim>\<open>FileLock\<close> (the lock of the \<^verbatim>\<open>filelock\<close> package on a Unix system, with
  no timeout): the lock file is opened for reading and writing and made when it is not
  there, and the open file is locked. In a single sequence of calls nobody else holds the
  lock, so taking it fails only when the file cannot be opened: the path is a
  directory, or the file is absent and its parent is not a directory. Releasing the lock
  leaves the lock file where it is.
\<close>

definition file_lock_acquire :: "path \<Rightarrow> fs \<Rightarrow> (py_error + unit) \<times> fs" where
  "file_lock_acquire p fs =
     (case node_at fs p of
        Some Dir \<Rightarrow> (Inl IsADirectoryError, fs)
      | Some File \<Rightarrow> (Inr (), fs)
      | None \<Rightarrow>
          (case node_at fs (butlast p) of
             None \<Rightarrow> (Inl FileNotFoundError, fs)
           | Some File \<Rightarrow> (Inl NotADirectoryError, fs)
           | Some Dir \<Rightarrow> (Inr (), (p, File) # fs)))"

subsection \<open>Path objects\<close>

text \<open>
  A \<^verbatim>\<open>pathlib.Path\<close> on a POSIX system is a list of components, anchored at the root
  or not. \<^verbatim>\<open>str\<close> joins the components with slashes; the root alone is \<^verbatim>\<open>/\<close> and the
  empty relative path is \<^verbatim>\<open>.\<close>
\<close>

datatype py_path = Absolute path | Relative path

fun join_slash :: "string list \<Rightarrow> string" where
  "join_slash [] = []"
| "join_slash [c] = c"
| "join_slash (c # d # cs) = c @ ''/'' @ join_slash (d # cs)"

fun path_str :: "py_path \<Rightarrow> string" where
  "path_str (Absolute cs) = ''/'' @ join_slash cs"
| "path_str (Relative cs) = (if cs = [] then ''.'' else join_slash cs)"

subsection \<open>The constants of \<^verbatim>\<open>env.py\<close>\<close>

text \<open>
  The paths come from a sibling module and are parameters of the model. The workspace
  and cache directories are used on the file system and are given by their components
  from the root; the include directories are only turned into strings.
\<close>

record env =
  FLASHINFER_WORKSPACE_DIR :: path
  FLASHINFER_JIT_DIR :: path
  FLASHINFER_INCLUDE_DIR :: py_path
  FLASHINFER_CSRC_DIR :: py_path
  CUTLASS_INCLUDE_DIRS :: "py_path list"

subsection \<open>Module initialisation\<close>

text \<open>
  The \<^verbatim>\<open>try\<close> around the import of \<^verbatim>\<open>aot_config\<close>. The argument is the outcome of
  the import statement: the registry, or the exception it raised. The result is the
  pair \<^verbatim>\<open>(prebuilt_ops_uri, has_prebuilt_ops)\<close>; only \<^verbatim>\<open>ImportError\<close> is caught.
\<close>

definition import_prebuilt_ops ::
  "py_error + string set \<Rightarrow> py_error + (string set \<times> bool)" where
  "import_prebuilt_ops aot_config =
     (case aot_config of
        Inr prebuilt_ops_uri \<Rightarrow> Inr (prebuilt_ops_uri, True)
      | Inl e \<Rightarrow> if e = ImportError then Inr ({}, False) else Inl e)"


subsection \<open>Clearing the cache directory\<close>

fun remove_each :: "path \<Rightarrow> string list \<Rightarrow> fs \<Rightarrow> (py_error + unit) \<times> fs" where
  "remove_each d [] fs = (Inr (), fs)"
| "remove_each d (file # rest) fs =
     (case os_remove (d @ [file]) fs of
        (Inl e, fs') \<Rightarrow> (Inl e, fs')
      | (Inr _, fs') \<Rightarrow> remove_each d rest fs')"

definition clear_cache_dir :: "env \<Rightarrow> fs \<Rightarrow> (py_error + unit) \<times> fs" where
  "clear_cache_dir env fs =
     (if os_path_exists fs (FLASHINFER_JIT_DIR env)
      then (case os_listdir (FLASHINFER_JIT_DIR env) fs of
              (Inl e, fs') \<Rightarrow> (Inl e, fs')
            | (Inr files, fs') \<Rightarrow> remove_each (FLASHINFER_JIT_DIR env) files fs')
      else (Inr (), fs))"

subsection \<open>Flag sanitization\<close>

definition REMOVE_NVCC_FLAGS :: "string list" where
  "REMOVE_NVCC_FLAGS =
     [''-D__CUDA_NO_HALF_OPERATORS__'',
      ''-D__CUDA_NO_HALF_CONVERSIONS__'',
      ''-D__CUDA_NO_BFLOAT16_CONVERSIONS__'',
      ''-D__CUDA_NO_HALF2_OPERATORS__'']"

text \<open>\<^verbatim>\<open>list.remove(x)\<close> deletes the first occurrence and raises \<^verbatim>\<open>ValueError\<close> when there is none.\<close>

definition list_remove :: "'a \<Rightarrow> 'a list \<Rightarrow> py_error + 'a list" where
  "list_remove x xs = (if x \<in> set xs then Inr (remove1 x xs) else Inl ValueError)"

text \<open>
  The loop over the flags to remove, on the current value of
  \<^verbatim>\<open>torch_cpp_ext.COMMON_NVCC_FLAGS\<close>; the \<^verbatim>\<open>except ValueError: pass\<close> goes on with
  the list as it was.
\<close>

fun remove_flags :: "string list \<Rightarrow> string list \<Rightarrow> py_error + string list" where
  "remove_flags [] nvcc_flags = Inr nvcc_flags"
| "remove_flags (flag # rest) nvcc_flags =
     (case list_remove flag nvcc_flags of
        Inr nvcc_flags' \<Rightarrow> remove_flags rest nvcc_flags'
      | Inl e \<Rightarrow> if e = ValueError then remove_flags rest nvcc_flags else Inl e)"

definition remove_unwanted_pytorch_nvcc_flags :: "string list \<Rightarrow> py_error + string list" where
  "remove_unwanted_pytorch_nvcc_flags nvcc_flags = remove_flags REMOVE_NVCC_FLAGS nvcc_flags"

text \<open>Two runs in a row; the second starts from the list the first one left.\<close>

definition sanitize_twice :: "string list \<Rightarrow> py_error + string list" where
  "sanitize_twice nvcc_flags =
     (case remove_unwanted_pytorch_nvcc_flags nvcc_flags of
        Inl e \<Rightarrow> Inl e
      | Inr nvcc_flags' \<Rightarrow> remove_unwanted_pytorch_nvcc_flags nvcc_flags')"

subsection \<open>The build entry point\<close>

text \<open>A source or include path is given as a string or as a \<^verbatim>\<open>Path\<close>; \<^verbatim>\<open>str\<close> maps both to strings.\<close>

datatype str_or_path = Str string | PathObj py_path

fun py_str :: "str_or_path \<Rightarrow> string" where
  "py_str (Str s) = s"
| "py_str (PathObj p) = path_str p"

text \<open>The keyword arguments of the call to \<^verbatim>\<open>torch_cpp_ext.load\<close>.\<close>

record load_args =
  la_name :: string
  la_sources :: "string list"
  la_extra_cflags :: "string list"
  la_extra_cuda_cflags :: "string list"
  la_extra_ldflags :: "string list option"
  la_extra_include_paths :: "string list"
  la_build_directory :: path
  la_verbose :: bool
  la_with_cuda :: bool

text \<open>
  What the outside can observe of a call: the file system, the lines written by the
  logger, and the sequence of lock and loader events.
\<close>

datatype event = LockAcquire path | LoaderCall load_args | LockRelease path

record state =
  files :: fs
  log :: "string list"
  trace :: "event list"

definition logger_info :: "string \<Rightarrow> state \<Rightarrow> state" where
  "logger_info msg st = st\<lparr>log := log st @ [''flashinfer.jit: '' @ msg]\<rparr>"

text \<open>
  \<^verbatim>\<open>load_cuda_ops\<close>. \<open>toolchain\<close> is what \<^verbatim>\<open>_get_cuda_arch_flags()\<close> returns or raises
  and \<open>load\<close> is \<^verbatim>\<open>torch_cpp_ext.load\<close>, which may change the file system and returns
  the module or raises. The module name is one path component. An exception at any
  step ends the call with the state reached so far. The lock is released on the way
  out of the \<^verbatim>\<open>with\<close> block whether the loader returned or raised.
\<close>

definition load_cuda_ops ::
  "env \<Rightarrow> py_error + string list \<Rightarrow> (load_args \<Rightarrow> fs \<Rightarrow> (py_error + 'm) \<times> fs) \<Rightarrow>
   string \<Rightarrow> str_or_path list \<Rightarrow> string list \<Rightarrow> string list \<Rightarrow> string list option \<Rightarrow>
   str_or_path list option \<Rightarrow> bool \<Rightarrow> state \<Rightarrow> (py_error + 'm) \<times> state" where
  "load_cuda_ops env toolchain load name sources extra_cflags extra_cuda_cflags
       extra_ldflags extra_include_paths verbose st =
     (let cflags = [''-O3'', ''-Wno-switch-bool''] @ extra_cflags;
          cuda_cflags =
            [''-O3'', ''-std=c++17'', ''--threads'', ''4'', ''-use_fast_math'',
             ''-DFLASHINFER_ENABLE_BF16'', ''-DFLASHINFER_ENABLE_FP8''] @ extra_cuda_cflags;
          st1 = logger_info (''Loading JIT ops: '' @ name) st
      in case check_cuda_arch_call toolchain of
           Inl e \<Rightarrow> (Inl e, st1)
         | Inr _ \<Rightarrow>
             (let build_directory = FLASHINFER_JIT_DIR env @ [name]
              in case (if \<not> os_path_exists (files st1) build_directory
                       then os_makedirs build_directory (files st1)
                       else (Inr (), files st1)) of
                   (Inl e, fs2) \<Rightarrow> (Inl e, st1\<lparr>files := fs2\<rparr>)
                 | (Inr _, fs2) \<Rightarrow>
                     (let include_paths =
                            (case extra_include_paths of
                               None \<Rightarrow>
                                 map PathObj ([FLASHINFER_INCLUDE_DIR env, FLASHINFER_CSRC_DIR env]
                                   @ CUTLASS_INCLUDE_DIRS env)
                             | Some ps \<Rightarrow> ps);
                          lock = FLASHINFER_JIT_DIR env @ [name @ ''.lock'']
                      in case file_lock_acquire lock fs2 of
                           (Inl e, fs3) \<Rightarrow> (Inl e, st1\<lparr>files := fs3\<rparr>)
                         | (Inr _, fs3) \<Rightarrow>
                             (let args = \<lparr>la_name = name,
                                          la_sources = map py_str sources,
                                          la_extra_cflags = cflags,
                                          la_extra_cuda_cflags = cuda_cflags,
                                          la_extra_ldflags = extra_ldflags,
                                          la_extra_include_paths = map py_str include_paths,
                                          la_build_directory = build_directory,
                                          la_verbose = verbose,
                                          la_with_cuda = True\<rparr>;
                                  (r, fs4) = load args fs3
                              in (r, st1\<lparr>files := fs4,
                                         trace := trace st1 @ [LockAcquire lock, LoaderCall args,
                                                               LockRelease lock]\<rparr>)))))"

subsection \<open>Example values\<close>

text \<open>
  A small installation used to run the model on concrete inputs: the workspace below a
  home directory, the cache directory inside it, a loader that returns a module, one
  that raises, and one that returns the arguments it was called with.
\<close>

abbreviation example_env :: env where
  "example_env \<equiv>
     \<lparr>FLASHINFER_WORKSPACE_DIR = [''home'', ''ws''],
      FLASHINFER_JIT_DIR = [''home'', ''ws'', ''cached_ops''],
      FLASHINFER_INCLUDE_DIR = Absolute [''pkg'', ''include''],
      FLASHINFER_CSRC_DIR = Absolute [''pkg'', ''csrc''],
      CUTLASS_INCLUDE_DIRS = [Absolute [''cutlass'', ''include'']]\<rparr>"

abbreviation example_state :: state where
  "example_state \<equiv> \<lparr>files = [([''home'', ''ws''], Dir), ([''home''], Dir)], log = [], trace = []\<rparr>"

abbreviation stub_load :: "load_args \<Rightarrow> fs \<Rightarrow> (py_error + nat) \<times> fs" where
  "stub_load \<equiv> (\<lambda>args fs. (Inr 0, fs))"

abbreviation failing_load :: "load_args \<Rightarrow> fs \<Rightarrow> (py_error + nat) \<times> fs" where
  "failing_load \<equiv> (\<lambda>args fs. (Inl (OtherError ''nvcc''), fs))"

abbreviation echo_load :: "load_args \<Rightarrow> fs \<Rightarrow> (py_error + load_args) \<times> fs" where
  "echo_load \<equiv> (\<lambda>args fs. (Inr args, fs))"

section \<open>Properties\<close>

subsection \<open>The capability check\<close>

lemma check_cuda_arch_Cons:
  "check_cuda_arch (f # rest) =
     (case extract_arch f of
        None \<Rightarrow> Inl AttributeError
      | Some n \<Rightarrow> if n < 75 then Inl RuntimeError else check_cuda_arch rest)"
  by (simp add: extract_arch_def split: option.split)

declare check_cuda_arch.simps(2) [simp del]

lemma check_cuda_arch_accepts_iff:
  "check_cuda_arch flags = Inr () \<longleftrightarrow>
     (\<forall>f \<in> set flags. \<exists>n. extract_arch f = Some n \<and> 75 \<le> n)"
proof (induction flags)
  case Nil
  show ?case by simp
next
  case (Cons f rest)
  show ?case
  proof (cases "extract_arch f")
    case None
    then show ?thesis by (simp add: check_cuda_arch_Cons)
  next
    case (Some n)
    with Cons.IH show ?thesis
      by (cases "n < 75") (simp_all add: check_cuda_arch_Cons not_less)
  qed
qed

lemma check_cuda_arch_results:
  "check_cuda_arch flags = Inr () \<or> check_cuda_arch flags = Inl RuntimeError
     \<or> check_cuda_arch flags = Inl AttributeError"
  by (induction flags) (auto simp: check_cuda_arch_Cons split: option.split)

lemma check_cuda_arch_no_AttributeError:
  "\<forall>f \<in> set flags. extract_arch f \<noteq> None \<Longrightarrow> check_cuda_arch flags \<noteq> Inl AttributeError"
  by (induction flags) (auto simp: check_cuda_arch_Cons split: option.split)

lemma check_cuda_arch_append:
  "check_cuda_arch (pre @ post) =
     (case check_cuda_arch pre of Inl e \<Rightarrow> Inl e | Inr _ \<Rightarrow> check_cuda_arch post)"
  by (induction pre) (auto simp: check_cuda_arch_Cons split: option.split)

text \<open>
  Claim C1. When every flag string carries a \<^verbatim>\<open>compute_<digits>\<close> marker,
  \<open>check_cuda_arch\<close> raises exactly when one of the extracted numbers is below 75, what
  it raises is then the \<^verbatim>\<open>RuntimeError\<close> of the source, and it returns normally when
  every extracted number is at least 75.
\<close>

theorem check_cuda_arch_threshold:
  assumes "\<forall>f \<in> set flags. extract_arch f \<noteq> None"
  shows "(isl (check_cuda_arch flags) \<longleftrightarrow>
            (\<exists>f \<in> set flags. \<exists>n. extract_arch f = Some n \<and> n < 75))
         \<and> (isl (check_cuda_arch flags) \<longrightarrow> check_cuda_arch flags = Inl RuntimeError)
         \<and> ((\<forall>f \<in> set flags. \<exists>n. extract_arch f = Some n \<and> 75 \<le> n) \<longrightarrow>
              check_cuda_arch flags = Inr ())"
proof -
  have acc: "check_cuda_arch flags = Inr () \<longleftrightarrow>
      (\<forall>f \<in> set flags. \<exists>n. extract_arch f = Some n \<and> 75 \<le> n)"
    by (rule check_cuda_arch_accepts_iff)
  have noattr: "check_cuda_arch flags \<noteq> Inl AttributeError"
    using assms by (rule check_cuda_arch_no_AttributeError)
  have cases3: "check_cuda_arch flags = Inr () \<or> check_cuda_arch flags = Inl RuntimeError"
    using check_cuda_arch_results [of flags] noattr by blast
  have "isl (check_cuda_arch flags) \<longleftrightarrow> check_cuda_arch flags \<noteq> Inr ()"
    using cases3 by auto
  also have "\<dots> \<longleftrightarrow> (\<exists>f \<in> set flags. \<not> (\<exists>n. extract_arch f = Some n \<and> 75 \<le> n))"
    using acc by blast
  also have "\<dots> \<longleftrightarrow> (\<exists>f \<in> set flags. \<exists>n. extract_arch f = Some n \<and> n < 75)"
  proof -
    have "\<not> (\<exists>n. extract_arch f = Some n \<and> 75 \<le> n) \<longleftrightarrow>
            (\<exists>n. extract_arch f = Some n \<and> n < 75)" if "f \<in> set flags" for f
    proof -
      from assms that obtain m where "extract_arch f = Some m" by auto
      then show ?thesis by (simp add: not_le)
    qed
    then show ?thesis by blast
  qed
  finally have raises: "isl (check_cuda_arch flags) \<longleftrightarrow>
      (\<exists>f \<in> set flags. \<exists>n. extract_arch f = Some n \<and> n < 75)" .
  have "isl (check_cuda_arch flags) \<longrightarrow> check_cuda_arch flags = Inl RuntimeError"
    using cases3 by auto
  with raises acc show ?thesis by blast
qed

theorem check_cuda_arch_threshold_witness:
  "extract_arch ''-gencode=arch=compute_75,code=sm_75'' = Some 75
   \<and> extract_arch ''-gencode=arch=compute_70,code=sm_70'' = Some 70
   \<and> extract_arch ''-gencode=arch=compute_90,code=sm_90'' = Some 90
   \<and> check_cuda_arch [''-gencode=arch=compute_75,code=sm_75'',
        ''-gencode=arch=compute_70,code=sm_70''] = Inl RuntimeError
   \<and> check_cuda_arch [''-gencode=arch=compute_75,code=sm_75'',
        ''-gencode=arch=compute_90,code=sm_90''] = Inr ()"
proof -
  have e75: "extract_arch ''-gencode=arch=compute_75,code=sm_75'' = Some 75" by code_simp
  have e70: "extract_arch ''-gencode=arch=compute_70,code=sm_70'' = Some 70" by code_simp
  have e90: "extract_arch ''-gencode=arch=compute_90,code=sm_90'' = Some 90" by code_simp
  have h1: "\<forall>f \<in> set [''-gencode=arch=compute_75,code=sm_75'', ''-gencode=arch=compute_70,code=sm_70''].
       extract_arch f \<noteq> None"
    using e75 e70 by simp
  have h2: "\<forall>f \<in> set [''-gencode=arch=compute_75,code=sm_75'', ''-gencode=arch=compute_90,code=sm_90''].
       extract_arch f \<noteq> None"
    using e75 e90 by simp
  from check_cuda_arch_threshold [OF h1] check_cuda_arch_threshold [OF h2] e75 e70 e90
  show ?thesis by simp
qed

text \<open>
  Claim C9. When every flag string carries a marker the check ends in one of two ways:
  it returns, or it raises the \<^verbatim>\<open>RuntimeError\<close> for an old architecture. When the loop
  comes to a flag string without a marker (the flags before it having passed), it
  raises \<^verbatim>\<open>AttributeError\<close> instead; and an \<^verbatim>\<open>AttributeError\<close> has no other cause.
\<close>

theorem check_cuda_arch_marker_precondition:
  "((\<forall>f \<in> set flags. re_search f \<noteq> None) \<longrightarrow>
      check_cuda_arch flags = Inr () \<or> check_cuda_arch flags = Inl RuntimeError)
   \<and> (re_search f = None \<and> check_cuda_arch pre = Inr () \<longrightarrow>
      check_cuda_arch (pre @ f # post) = Inl AttributeError)
   \<and> (check_cuda_arch flags = Inl AttributeError \<longrightarrow> (\<exists>f \<in> set flags. re_search f = None))"
proof -
  have a: "(\<forall>f \<in> set flags. re_search f \<noteq> None) \<longrightarrow>
      check_cuda_arch flags = Inr () \<or> check_cuda_arch flags = Inl RuntimeError"
    using check_cuda_arch_results [of flags] check_cuda_arch_no_AttributeError [of flags]
    by (auto simp: extract_arch_def)
  have b: "re_search f = None \<and> check_cuda_arch pre = Inr () \<longrightarrow>
      check_cuda_arch (pre @ f # post) = Inl AttributeError"
    by (simp add: check_cuda_arch_append check_cuda_arch_Cons extract_arch_def)
  have c: "check_cuda_arch flags = Inl AttributeError \<longrightarrow> (\<exists>f \<in> set flags. re_search f = None)"
  proof (rule impI, rule ccontr)
    assume e: "check_cuda_arch flags = Inl AttributeError"
      and n: "\<not> (\<exists>f \<in> set flags. re_search f = None)"
    from n have "\<forall>f \<in> set flags. extract_arch f \<noteq> None"
      by (simp add: extract_arch_def)
    from check_cuda_arch_no_AttributeError [OF this] e show False by contradiction
  qed
  from a b c show ?thesis by blast
qed

theorem check_cuda_arch_marker_precondition_witness:
  "re_search ''-gencode=arch=compute_80,code=sm_80'' = Some ''80''
   \<and> check_cuda_arch [''-gencode=arch=compute_80,code=sm_80''] = Inr ()
   \<and> re_search ''-arch=sm_80'' = None
   \<and> check_cuda_arch [''-gencode=arch=compute_80,code=sm_80'', ''-arch=sm_80'']
       = Inl AttributeError"
proof -
  have s80: "re_search ''-gencode=arch=compute_80,code=sm_80'' = Some ''80''" by code_simp
  have none: "re_search ''-arch=sm_80'' = None" by code_simp
  have ok: "check_cuda_arch [''-gencode=arch=compute_80,code=sm_80''] = Inr ()" by code_simp
  from check_cuda_arch_marker_precondition
    [of "[''-gencode=arch=compute_80,code=sm_80'']" "''-arch=sm_80''"
        "[''-gencode=arch=compute_80,code=sm_80'']" "[]"]
    s80 none ok
  show ?thesis by simp
qed

subsection \<open>Flag sanitization\<close>

text \<open>
  The loop never raises: a flag that is absent costs a caught \<^verbatim>\<open>ValueError\<close>, and
  the run is a fold of \<open>remove1\<close> over the flags to remove.
\<close>

lemma remove_flags_fold: "remove_flags fs xs = Inr (fold remove1 fs xs)"
  by (induction fs arbitrary: xs) (simp_all add: list_remove_def remove1_idem)

lemma count_list_remove1:
  "count_list (remove1 a xs) b = (if a = b then count_list xs b - 1 else count_list xs b)"
  by (induction xs) auto

lemma count_list_fold_remove1:
  "distinct fs \<Longrightarrow>
   count_list (fold remove1 fs xs) b = (if b \<in> set fs then count_list xs b - 1 else count_list xs b)"
  by (induction fs arbitrary: xs) (auto simp: count_list_remove1)

lemma fold_remove1_absent:
  "\<forall>f \<in> set fs. f \<notin> set xs \<Longrightarrow> fold remove1 fs xs = xs"
  by (induction fs arbitrary: xs) (simp_all add: remove1_idem)

lemma length_fold_remove1_le: "length (fold remove1 fs xs) \<le> length xs"
proof (induction fs arbitrary: xs)
  case Nil
  show ?case by simp
next
  case (Cons a fs)
  have "length (fold remove1 fs (remove1 a xs)) \<le> length (remove1 a xs)" by (rule Cons.IH)
  also have "\<dots> \<le> length xs" by (simp add: length_remove1)
  finally show ?case by simp
qed

lemma length_fold_remove1_less:
  "f \<in> set fs \<Longrightarrow> f \<in> set xs \<Longrightarrow> length (fold remove1 fs xs) < length xs"
proof (induction fs arbitrary: xs)
  case Nil
  then show ?case by simp
next
  case (Cons a fs)
  show ?case
  proof (cases "a \<in> set xs")
    case True
    have "length (fold remove1 fs (remove1 a xs)) \<le> length (remove1 a xs)"
      by (rule length_fold_remove1_le)
    also have "\<dots> < length xs"
      using True length_pos_if_in_set [OF True] by (simp add: length_remove1)
    finally show ?thesis by simp
  next
    case False
    with Cons.prems have "f \<in> set fs" by auto
    from Cons.IH [OF this Cons.prems(2)] False show ?thesis by (simp add: remove1_idem)
  qed
qed

lemma distinct_REMOVE_NVCC_FLAGS: "distinct REMOVE_NVCC_FLAGS"
  by (simp add: REMOVE_NVCC_FLAGS_def)

lemma fold_remove1_idem_iff:
  assumes "distinct fs"
  shows "fold remove1 fs (fold remove1 fs xs) = fold remove1 fs xs \<longleftrightarrow>
         (\<forall>f \<in> set fs. count_list xs f \<le> 1)"
proof -
  let ?ys = "fold remove1 fs xs"
  have "fold remove1 fs ?ys = ?ys \<longleftrightarrow> (\<forall>f \<in> set fs. f \<notin> set ?ys)"
  proof
    assume eq: "fold remove1 fs ?ys = ?ys"
    show "\<forall>f \<in> set fs. f \<notin> set ?ys"
    proof (rule ballI, rule notI)
      fix f assume "f \<in> set fs" "f \<in> set ?ys"
      then have "length (fold remove1 fs ?ys) < length ?ys" by (rule length_fold_remove1_less)
      with eq show False by simp
    qed
  next
    assume "\<forall>f \<in> set fs. f \<notin> set ?ys"
    then show "fold remove1 fs ?ys = ?ys" by (rule fold_remove1_absent)
  qed
  also have "\<dots> \<longleftrightarrow> (\<forall>f \<in> set fs. count_list ?ys f = 0)"
    by (simp add: count_list_0_iff)
  also have "\<dots> \<longleftrightarrow> (\<forall>f \<in> set fs. count_list xs f \<le> 1)"
    using assms by (auto simp: count_list_fold_remove1)
  finally show ?thesis .
qed

text \<open>
  Claim C6. Removing a flag that is not in the list raises \<^verbatim>\<open>ValueError\<close> inside the
  loop, the loop goes on with the remaining flags on the unchanged list, and neither
  the loop nor the sanitization as a whole ends in an exception.
\<close>

theorem missing_flag_is_skipped:
  "(flag \<notin> set nvcc_flags \<longrightarrow>
      list_remove flag nvcc_flags = Inl ValueError
      \<and> remove_flags (flag # rest) nvcc_flags = remove_flags rest nvcc_flags)
   \<and> (\<exists>out. remove_flags rest nvcc_flags = Inr out)
   \<and> (\<exists>out. remove_unwanted_pytorch_nvcc_flags nvcc_flags = Inr out)"
  by (simp add: list_remove_def remove_flags_fold remove_unwanted_pytorch_nvcc_flags_def
      remove1_idem)

theorem missing_flag_is_skipped_witness:
  "''-D__CUDA_NO_HALF_OPERATORS__'' \<notin> set [''--expt-relaxed-constexpr'', ''-D__CUDA_NO_HALF2_OPERATORS__'']
   \<and> list_remove ''-D__CUDA_NO_HALF_OPERATORS__''
        [''--expt-relaxed-constexpr'', ''-D__CUDA_NO_HALF2_OPERATORS__''] = Inl ValueError
   \<and> remove_flags [''-D__CUDA_NO_HALF_OPERATORS__'', ''-D__CUDA_NO_HALF2_OPERATORS__'']
        [''--expt-relaxed-constexpr'', ''-D__CUDA_NO_HALF2_OPERATORS__'']
       = remove_flags [''-D__CUDA_NO_HALF2_OPERATORS__'']
          [''--expt-relaxed-constexpr'', ''-D__CUDA_NO_HALF2_OPERATORS__'']
   \<and> remove_unwanted_pytorch_nvcc_flags
        [''--expt-relaxed-constexpr'', ''-D__CUDA_NO_HALF2_OPERATORS__'']
       = Inr [''--expt-relaxed-constexpr'']"
proof -
  have h: "''-D__CUDA_NO_HALF_OPERATORS__'' \<notin> set [''--expt-relaxed-constexpr'', ''-D__CUDA_NO_HALF2_OPERATORS__'']"
    by simp
  have r: "remove_unwanted_pytorch_nvcc_flags
        [''--expt-relaxed-constexpr'', ''-D__CUDA_NO_HALF2_OPERATORS__'']
       = Inr [''--expt-relaxed-constexpr'']"
    by (simp add: remove_unwanted_pytorch_nvcc_flags_def REMOVE_NVCC_FLAGS_def list_remove_def)
  from missing_flag_is_skipped [of "''-D__CUDA_NO_HALF_OPERATORS__''"
      "[''--expt-relaxed-constexpr'', ''-D__CUDA_NO_HALF2_OPERATORS__'']"
      "[''-D__CUDA_NO_HALF2_OPERATORS__'']"] h r
  show ?thesis by blast
qed

text \<open>
  Claim C4, as stated, for every initial list, duplicates included. It fails: with a
  flag to remove occurring twice, the first run deletes one occurrence and the second
  run deletes the other.
\<close>

theorem sanitize_not_idempotent_on_duplicates:
  "sanitize_twice [''-D__CUDA_NO_HALF_OPERATORS__'', ''-D__CUDA_NO_HALF_OPERATORS__'']
     \<noteq> remove_unwanted_pytorch_nvcc_flags
          [''-D__CUDA_NO_HALF_OPERATORS__'', ''-D__CUDA_NO_HALF_OPERATORS__'']"
  by (simp add: sanitize_twice_def remove_unwanted_pytorch_nvcc_flags_def REMOVE_NVCC_FLAGS_def
      list_remove_def)

text \<open>
  Claim C4, amended. Running the sanitization twice gives the same list as running it
  once exactly when each of the four flags to remove occurs at most once in the
  initial list.
\<close>

theorem sanitize_idempotent_iff:
  "sanitize_twice nvcc_flags = remove_unwanted_pytorch_nvcc_flags nvcc_flags \<longleftrightarrow>
     (\<forall>flag \<in> set REMOVE_NVCC_FLAGS. count_list nvcc_flags flag \<le> 1)"
  using fold_remove1_idem_iff [OF distinct_REMOVE_NVCC_FLAGS, of nvcc_flags]
  by (simp add: sanitize_twice_def remove_unwanted_pytorch_nvcc_flags_def remove_flags_fold)

theorem sanitize_idempotent_iff_witness:
  "count_list [''-D__CUDA_NO_HALF_OPERATORS__'', ''-D__CUDA_NO_HALF_CONVERSIONS__'',
      ''-D__CUDA_NO_BFLOAT16_CONVERSIONS__'', ''-D__CUDA_NO_HALF2_OPERATORS__'',
      ''--expt-relaxed-constexpr''] ''-D__CUDA_NO_HALF_OPERATORS__'' = 1
   \<and> remove_unwanted_pytorch_nvcc_flags
       [''-D__CUDA_NO_HALF_OPERATORS__'', ''-D__CUDA_NO_HALF_CONVERSIONS__'',
        ''-D__CUDA_NO_BFLOAT16_CONVERSIONS__'', ''-D__CUDA_NO_HALF2_OPERATORS__'',
        ''--expt-relaxed-constexpr''] = Inr [''--expt-relaxed-constexpr'']
   \<and> sanitize_twice
       [''-D__CUDA_NO_HALF_OPERATORS__'', ''-D__CUDA_NO_HALF_CONVERSIONS__'',
        ''-D__CUDA_NO_BFLOAT16_CONVERSIONS__'', ''-D__CUDA_NO_HALF2_OPERATORS__'',
        ''--expt-relaxed-constexpr''] = Inr [''--expt-relaxed-constexpr'']"
proof -
  let ?d = "[''-D__CUDA_NO_HALF_OPERATORS__'', ''-D__CUDA_NO_HALF_CONVERSIONS__'',
      ''-D__CUDA_NO_BFLOAT16_CONVERSIONS__'', ''-D__CUDA_NO_HALF2_OPERATORS__'',
      ''--expt-relaxed-constexpr'']"
  have h: "\<forall>flag \<in> set REMOVE_NVCC_FLAGS. count_list ?d flag \<le> 1"
    by (simp add: REMOVE_NVCC_FLAGS_def)
  have c: "count_list ?d ''-D__CUDA_NO_HALF_OPERATORS__'' = 1" by simp
  have once: "remove_unwanted_pytorch_nvcc_flags ?d = Inr [''--expt-relaxed-constexpr'']"
    by (simp add: remove_unwanted_pytorch_nvcc_flags_def REMOVE_NVCC_FLAGS_def list_remove_def)
  from sanitize_idempotent_iff [of ?d] h
  have "sanitize_twice ?d = remove_unwanted_pytorch_nvcc_flags ?d" by blast
  with once c show ?thesis by simp
qed

subsection \<open>Module initialisation\<close>

text \<open>
  Claim C8. When the import of the registry module raises \<^verbatim>\<open>ImportError\<close>,
  initialisation goes on without an exception, with the empty registry and the
  indicator false; when the import succeeds, the registry is the imported one and the
  indicator is true.
\<close>

theorem import_prebuilt_ops_optional:
  "import_prebuilt_ops (Inl ImportError) = Inr ({}, False)
   \<and> import_prebuilt_ops (Inr registry) = Inr (registry, True)"
  by (simp add: import_prebuilt_ops_def)

subsection \<open>The file system\<close>

text \<open>
  \<open>os_makedirs\<close> succeeds on a path that does not exist when no regular file stands
  where one of its ancestors should be. Every node that existed is kept as it was, and
  every new node is a directory on the way to the path.
\<close>

lemma node_at_Nil [simp]: "node_at fs [] = Some Dir"
  by (simp add: node_at_def)

lemma node_at_Cons:
  "node_at ((p, k) # fs) q = (if q = [] then Some Dir else if q = p then Some k else node_at fs q)"
  by (simp add: node_at_def)

lemma node_at_filter:
  "p \<noteq> [] \<Longrightarrow>
   node_at (filter (\<lambda>(q, k). q \<noteq> p) fs) q' = (if q' = p then None else node_at fs q')"
  by (induction fs) (auto simp: node_at_def)

lemma node_at_None_iff: "node_at fs p = None \<longleftrightarrow> p \<noteq> [] \<and> p \<notin> fst ` set fs"
  by (simp add: node_at_def map_of_eq_None_iff)

lemma os_mkdir_ok:
  "\<not> os_path_exists fs p \<Longrightarrow> node_at fs (butlast p) = Some Dir \<Longrightarrow>
   os_mkdir p fs = (Inr (), (p, Dir) # fs)"
  by (simp add: os_mkdir_def)

lemma os_makedirs_creates:
  "\<not> os_path_exists fs p \<Longrightarrow> \<forall>n < length p. node_at fs (take n p) \<noteq> Some File \<Longrightarrow>
   \<exists>fs'. os_makedirs p fs = (Inr (), fs')
     \<and> node_at fs' p = Some Dir
     \<and> node_at fs' (butlast p) = Some Dir
     \<and> (\<forall>q. node_at fs q \<noteq> None \<longrightarrow> node_at fs' q = node_at fs q)
     \<and> (\<forall>q. node_at fs q = None \<and> node_at fs' q \<noteq> None \<longrightarrow>
           node_at fs' q = Some Dir \<and> (\<exists>n \<le> length p. q = take n p))"
proof (induction p fs rule: os_makedirs.induct)
  case (1 name fs)
  from "1.prems"(1) have ne: "name \<noteq> []" by (auto simp: os_path_exists_def)
  have absent: "node_at fs name = None" using "1.prems"(1) by (simp add: os_path_exists_def)
  have bl: "butlast name = take (length name - 1) name" by (simp add: butlast_conv_take)
  show ?case
  proof (cases "butlast name \<noteq> [] \<and> \<not> os_path_exists fs (butlast name)")
    case True
    have pre: "\<forall>n < length (butlast name). node_at fs (take n (butlast name)) \<noteq> Some File"
    proof (intro allI impI)
      fix n assume n: "n < length (butlast name)"
      then have "take n (butlast name) = take n name" by (simp add: take_butlast)
      moreover from n have "n < length name" by simp
      ultimately show "node_at fs (take n (butlast name)) \<noteq> Some File"
        using "1.prems"(2) by simp
    qed
    from True ne have cond: "name \<noteq> [] \<and> butlast name \<noteq> [] \<and> \<not> os_path_exists fs (butlast name)"
      by simp
    from "1.IH" [OF cond _ pre] True
    obtain fs1 where mk: "os_makedirs (butlast name) fs = (Inr (), fs1)"
      and dir1: "node_at fs1 (butlast name) = Some Dir"
      and keep1: "\<forall>q. node_at fs q \<noteq> None \<longrightarrow> node_at fs1 q = node_at fs q"
      and new1: "\<forall>q. node_at fs q = None \<and> node_at fs1 q \<noteq> None \<longrightarrow>
           node_at fs1 q = Some Dir \<and> (\<exists>n \<le> length (butlast name). q = take n (butlast name))"
      by blast
    have absent1: "node_at fs1 name = None"
    proof (rule ccontr)
      assume "node_at fs1 name \<noteq> None"
      with new1 absent obtain n where "n \<le> length (butlast name)" "name = take n (butlast name)"
        by blast
      then have "length name \<le> length (butlast name)" by (metis length_take min.cobounded1)
      then have "length name \<le> length name - 1" by (simp only: length_butlast)
      moreover from ne have "1 \<le> length name" by (cases name) simp_all
      ultimately show False by arith
    qed
    then have "os_mkdir name fs1 = (Inr (), (name, Dir) # fs1)"
      using dir1 by (simp add: os_mkdir_ok os_path_exists_def)
    with mk cond have res: "os_makedirs name fs = (Inr (), (name, Dir) # fs1)"
      by (subst os_makedirs.simps) simp
    have a: "node_at ((name, Dir) # fs1) name = Some Dir" using ne by (simp add: node_at_Cons)
    have "butlast name \<noteq> name" using ne by (metis append_butlast_last_id append_self_conv not_Cons_self2)
    then have d: "node_at ((name, Dir) # fs1) (butlast name) = Some Dir"
      using dir1 by (simp add: node_at_Cons)
    have b: "\<forall>q. node_at fs q \<noteq> None \<longrightarrow> node_at ((name, Dir) # fs1) q = node_at fs q"
      using keep1 absent by (auto simp: node_at_Cons)
    have c: "\<forall>q. node_at fs q = None \<and> node_at ((name, Dir) # fs1) q \<noteq> None \<longrightarrow>
           node_at ((name, Dir) # fs1) q = Some Dir \<and> (\<exists>n \<le> length name. q = take n name)"
    proof (intro allI impI)
      fix q assume q: "node_at fs q = None \<and> node_at ((name, Dir) # fs1) q \<noteq> None"
      show "node_at ((name, Dir) # fs1) q = Some Dir \<and> (\<exists>n \<le> length name. q = take n name)"
      proof (cases "q = name")
        case True
        then show ?thesis using a by auto
      next
        case False
        with q have q1: "node_at fs1 q \<noteq> None" "q \<noteq> []" by (auto simp: node_at_Cons split: if_splits)
        with new1 q obtain n where n: "node_at fs1 q = Some Dir" "n \<le> length (butlast name)"
          "q = take n (butlast name)" by blast
        from ne have "1 \<le> length name" by (cases name) simp_all
        with n(2) have "n < length name" by simp
        with n(3) have "q = take n name" "n \<le> length name" by (simp_all add: take_butlast)
        with n False q1 show ?thesis by (auto simp: node_at_Cons)
      qed
    qed
    from res a d b c show ?thesis by blast
  next
    case False
    have "node_at fs (butlast name) \<noteq> None"
      using False by (cases "butlast name = []") (auto simp: os_path_exists_def)
    moreover have "node_at fs (butlast name) \<noteq> Some File"
      using "1.prems"(2) ne bl by (metis diff_less length_greater_0_conv zero_less_one)
    ultimately have pd: "node_at fs (butlast name) = Some Dir"
      by (cases "node_at fs (butlast name)") (auto intro: node.exhaust)
    then have "os_mkdir name fs = (Inr (), (name, Dir) # fs)"
      using "1.prems"(1) by (simp add: os_mkdir_ok)
    with False have res: "os_makedirs name fs = (Inr (), (name, Dir) # fs)"
      by (subst os_makedirs.simps) auto
    have a: "node_at ((name, Dir) # fs) name = Some Dir" using ne by (simp add: node_at_Cons)
    have "butlast name \<noteq> name" using ne by (metis append_butlast_last_id append_self_conv not_Cons_self2)
    then have d: "node_at ((name, Dir) # fs) (butlast name) = Some Dir"
      using pd by (simp add: node_at_Cons)
    have b: "\<forall>q. node_at fs q \<noteq> None \<longrightarrow> node_at ((name, Dir) # fs) q = node_at fs q"
      using absent by (auto simp: node_at_Cons)
    have c: "\<forall>q. node_at fs q = None \<and> node_at ((name, Dir) # fs) q \<noteq> None \<longrightarrow>
           node_at ((name, Dir) # fs) q = Some Dir \<and> (\<exists>n \<le> length name. q = take n name)"
      by (auto simp: node_at_Cons split: if_splits)
    from res a d b c show ?thesis by blast
  qed
qed



subsection \<open>Clearing the cache directory\<close>

lemma mem_listing:
  "c \<in> set (map (\<lambda>(q, k). last q) (filter (\<lambda>(q, k). q \<noteq> [] \<and> butlast q = d) fs))
     \<longleftrightarrow> node_at fs (d @ [c]) \<noteq> None"
proof -
  have "c \<in> set (map (\<lambda>(q, k). last q) (filter (\<lambda>(q, k). q \<noteq> [] \<and> butlast q = d) fs))
     \<longleftrightarrow> (\<exists>q k. (q, k) \<in> set fs \<and> q \<noteq> [] \<and> butlast q = d \<and> last q = c)"
    by (auto simp: image_iff)
  also have "\<dots> \<longleftrightarrow> (\<exists>k. (d @ [c], k) \<in> set fs)"
    by (metis append_butlast_last_id butlast_snoc last_snoc snoc_eq_iff_butlast)
  also have "\<dots> \<longleftrightarrow> node_at fs (d @ [c]) \<noteq> None"
    by (auto simp: node_at_None_iff image_iff) force
  finally show ?thesis .
qed

lemma os_listdir_Dir:
  "node_at fs d = Some Dir \<Longrightarrow>
   \<exists>names. os_listdir d fs = (Inr names, fs) \<and> distinct names
     \<and> (\<forall>c. c \<in> set names \<longleftrightarrow> node_at fs (d @ [c]) \<noteq> None)"
proof -
  assume d: "node_at fs d = Some Dir"
  let ?names = "remdups (map (\<lambda>(q, k). last q)
                  (filter (\<lambda>(q, k). q \<noteq> [] \<and> butlast q = d) fs))"
  have "os_listdir d fs = (Inr ?names, fs)" using d by (simp add: os_listdir_def)
  moreover have "distinct ?names" by simp
  moreover have "\<forall>c. c \<in> set ?names \<longleftrightarrow> node_at fs (d @ [c]) \<noteq> None"
    by (simp only: set_remdups mem_listing) simp
  ultimately show ?thesis by blast
qed

lemma os_remove_File:
  "node_at fs p = Some File \<Longrightarrow> os_remove p fs = (Inr (), filter (\<lambda>(q, k). q \<noteq> p) fs)"
  by (simp add: os_remove_def)

lemma os_remove_Dir:
  "node_at fs p = Some Dir \<Longrightarrow> os_remove p fs = (Inl IsADirectoryError, fs)"
  by (simp add: os_remove_def)

lemma remove_each_files:
  "distinct names \<Longrightarrow> \<forall>c \<in> set names. node_at fs (d @ [c]) = Some File \<Longrightarrow>
   \<exists>fs'. remove_each d names fs = (Inr (), fs')
     \<and> (\<forall>q. node_at fs' q = (if \<exists>c \<in> set names. q = d @ [c] then None else node_at fs q))"
proof (induction names arbitrary: fs)
  case Nil
  show ?case by simp
next
  case (Cons c rest)
  let ?fs1 = "filter (\<lambda>(q, k). q \<noteq> d @ [c]) fs"
  have at1: "node_at ?fs1 q = (if q = d @ [c] then None else node_at fs q)" for q
    by (rule node_at_filter) simp
  from Cons.prems have rm: "os_remove (d @ [c]) fs = (Inr (), ?fs1)"
    by (simp add: os_remove_File)
  have "\<forall>c' \<in> set rest. node_at ?fs1 (d @ [c']) = Some File"
    using Cons.prems by (auto simp: at1)
  with Cons.IH [of ?fs1] Cons.prems(1)
  obtain fs' where r: "remove_each d rest ?fs1 = (Inr (), fs')"
    and at': "\<forall>q. node_at fs' q = (if \<exists>c' \<in> set rest. q = d @ [c'] then None else node_at ?fs1 q)"
    by auto
  have "remove_each d (c # rest) fs = (Inr (), fs')" using rm r by simp
  moreover have "\<forall>q. node_at fs' q = (if \<exists>c' \<in> set (c # rest). q = d @ [c'] then None else node_at fs q)"
    using at' by (auto simp: at1)
  ultimately show ?case by blast
qed

lemma remove_each_subdirectory:
  "distinct names \<Longrightarrow> \<forall>c \<in> set names. node_at fs (d @ [c]) \<noteq> None \<Longrightarrow>
   c \<in> set names \<Longrightarrow> node_at fs (d @ [c]) = Some Dir \<Longrightarrow>
   fst (remove_each d names fs) = Inl IsADirectoryError
   \<and> node_at (snd (remove_each d names fs)) (d @ [c]) = Some Dir"
proof (induction names arbitrary: fs)
  case Nil
  then show ?case by simp
next
  case (Cons a rest)
  from Cons.prems(2) obtain k where k: "node_at fs (d @ [a]) = Some k" by auto
  show ?case
  proof (cases k)
    case Dir
    with k have "os_remove (d @ [a]) fs = (Inl IsADirectoryError, fs)" by (simp add: os_remove_Dir)
    with Cons.prems(4) show ?thesis by simp
  next
    case File
    let ?fs1 = "filter (\<lambda>(q, k). q \<noteq> d @ [a]) fs"
    have at1: "node_at ?fs1 q = (if q = d @ [a] then None else node_at fs q)" for q
      by (rule node_at_filter) simp
    from File k have rm: "os_remove (d @ [a]) fs = (Inr (), ?fs1)" by (simp add: os_remove_File)
    from File k Cons.prems(4) have ca: "c \<noteq> a" by auto
    with Cons.prems(3) have c: "c \<in> set rest" by simp
    have ex: "\<forall>c' \<in> set rest. node_at ?fs1 (d @ [c']) \<noteq> None"
      using Cons.prems(1,2) by (auto simp: at1)
    have cd: "node_at ?fs1 (d @ [c]) = Some Dir" using Cons.prems(4) ca by (simp add: at1)
    from Cons.prems(1) have "distinct rest" by simp
    from Cons.IH [OF this ex c cd] rm show ?thesis by simp
  qed
qed

text \<open>
  The two lemmas on \<open>remove_each\<close> above hold for any listing of the entries without
  repetition, so what follows does not depend on the order in which \<^verbatim>\<open>os.listdir\<close>
  returns them. On a cache directory whose entries are all regular files the function
  does what its name says: it returns normally, the directory is still there, it has
  no entry left, and nothing outside it has changed.
\<close>

lemma clear_cache_dir_files_only:
  assumes "node_at fs (FLASHINFER_JIT_DIR env) = Some Dir"
    and "\<forall>c. node_at fs (FLASHINFER_JIT_DIR env @ [c]) \<noteq> Some Dir"
  shows "\<exists>fs'. clear_cache_dir env fs = (Inr (), fs')
     \<and> node_at fs' (FLASHINFER_JIT_DIR env) = Some Dir
     \<and> (\<forall>c. node_at fs' (FLASHINFER_JIT_DIR env @ [c]) = None)
     \<and> (\<forall>q. (\<forall>c. q \<noteq> FLASHINFER_JIT_DIR env @ [c]) \<longrightarrow> node_at fs' q = node_at fs q)"
proof -
  let ?d = "FLASHINFER_JIT_DIR env"
  from os_listdir_Dir [OF assms(1)] obtain names
    where ls: "os_listdir ?d fs = (Inr names, fs)" and dn: "distinct names"
      and mem: "\<forall>c. c \<in> set names \<longleftrightarrow> node_at fs (?d @ [c]) \<noteq> None"
    by blast
  have "\<forall>c \<in> set names. node_at fs (?d @ [c]) = Some File"
  proof
    fix c assume "c \<in> set names"
    with mem obtain k where "node_at fs (?d @ [c]) = Some k" by auto
    with assms(2) show "node_at fs (?d @ [c]) = Some File" by (cases k) auto
  qed
  from remove_each_files [OF dn this] obtain fs'
    where r: "remove_each ?d names fs = (Inr (), fs')"
      and at': "\<forall>q. node_at fs' q = (if \<exists>c \<in> set names. q = ?d @ [c] then None else node_at fs q)"
    by blast
  have res: "clear_cache_dir env fs = (Inr (), fs')"
    using assms(1) ls r by (simp add: clear_cache_dir_def os_path_exists_def)
  have a: "node_at fs' ?d = Some Dir" using at' assms(1) by auto
  have b: "\<forall>c. node_at fs' (?d @ [c]) = None" using at' mem by auto
  have c: "\<forall>q. (\<forall>c. q \<noteq> ?d @ [c]) \<longrightarrow> node_at fs' q = node_at fs q" using at' by auto
  from res a b c show ?thesis by blast
qed

text \<open>
  Claim C3 asks that \<open>clear_cache_dir\<close> return normally on every populated cache
  directory and leave it empty. The cache directory holds one subdirectory per module,
  made by \<open>load_cuda_ops\<close>, and \<^verbatim>\<open>os.remove\<close> refuses a directory: whenever an entry of
  the cache directory is a directory, \<open>clear_cache_dir\<close> raises
  \<^verbatim>\<open>IsADirectoryError\<close> and that entry is still there afterwards. The concrete run
  builds one module on the example installation and then clears the cache.
\<close>

theorem clear_cache_dir_fails_on_subdirectory:
  assumes "node_at fs (FLASHINFER_JIT_DIR env) = Some Dir"
    and "node_at fs (FLASHINFER_JIT_DIR env @ [name]) = Some Dir"
  shows "fst (clear_cache_dir env fs) = Inl IsADirectoryError
     \<and> node_at (snd (clear_cache_dir env fs)) (FLASHINFER_JIT_DIR env @ [name]) = Some Dir"
proof -
  let ?d = "FLASHINFER_JIT_DIR env"
  from os_listdir_Dir [OF assms(1)] obtain names
    where ls: "os_listdir ?d fs = (Inr names, fs)" and dn: "distinct names"
      and mem: "\<forall>c. c \<in> set names \<longleftrightarrow> node_at fs (?d @ [c]) \<noteq> None"
    by blast
  have ex: "\<forall>c \<in> set names. node_at fs (?d @ [c]) \<noteq> None" using mem by simp
  have c: "name \<in> set names" using mem assms(2) by simp
  have "clear_cache_dir env fs = remove_each ?d names fs"
    using assms(1) ls by (simp add: clear_cache_dir_def os_path_exists_def)
  with remove_each_subdirectory [OF dn ex c assms(2)] show ?thesis by simp
qed

theorem clear_cache_dir_fails_on_subdirectory_witness:
  "files (snd (load_cuda_ops example_env (Inr [''compute_80'']) stub_load ''m'' [] [] [] None None
        False example_state))
     = [([''home'', ''ws'', ''cached_ops'', ''m.lock''], File),
        ([''home'', ''ws'', ''cached_ops'', ''m''], Dir), ([''home'', ''ws'', ''cached_ops''], Dir),
        ([''home'', ''ws''], Dir), ([''home''], Dir)]
   \<and> node_at [([''home'', ''ws'', ''cached_ops'', ''m.lock''], File),
        ([''home'', ''ws'', ''cached_ops'', ''m''], Dir), ([''home'', ''ws'', ''cached_ops''], Dir),
        ([''home'', ''ws''], Dir), ([''home''], Dir)]
        [''home'', ''ws'', ''cached_ops''] = Some Dir
   \<and> node_at [([''home'', ''ws'', ''cached_ops'', ''m.lock''], File),
        ([''home'', ''ws'', ''cached_ops'', ''m''], Dir), ([''home'', ''ws'', ''cached_ops''], Dir),
        ([''home'', ''ws''], Dir), ([''home''], Dir)]
        [''home'', ''ws'', ''cached_ops'', ''m''] = Some Dir
   \<and> fst (clear_cache_dir example_env
        [([''home'', ''ws'', ''cached_ops'', ''m.lock''], File),
         ([''home'', ''ws'', ''cached_ops'', ''m''], Dir), ([''home'', ''ws'', ''cached_ops''], Dir),
         ([''home'', ''ws''], Dir), ([''home''], Dir)]) = Inl IsADirectoryError
   \<and> node_at (snd (clear_cache_dir example_env
        [([''home'', ''ws'', ''cached_ops'', ''m.lock''], File),
         ([''home'', ''ws'', ''cached_ops'', ''m''], Dir), ([''home'', ''ws'', ''cached_ops''], Dir),
         ([''home'', ''ws''], Dir), ([''home''], Dir)]))
        [''home'', ''ws'', ''cached_ops'', ''m''] = Some Dir"
proof -
  let ?fs = "[([''home'', ''ws'', ''cached_ops'', ''m.lock''], File),
              ([''home'', ''ws'', ''cached_ops'', ''m''], Dir),
              ([''home'', ''ws'', ''cached_ops''], Dir), ([''home'', ''ws''], Dir),
              ([''home''], Dir)]"
  have built: "files (snd (load_cuda_ops example_env (Inr [''compute_80'']) stub_load ''m'' [] [] []
      None None False example_state)) = ?fs"
    by code_simp
  have jit: "node_at ?fs (FLASHINFER_JIT_DIR example_env) = Some Dir"
    by (simp add: node_at_def)
  have sub: "node_at ?fs (FLASHINFER_JIT_DIR example_env @ [''m'']) = Some Dir"
    by (simp add: node_at_def)
  from clear_cache_dir_fails_on_subdirectory [OF jit sub] built jit sub
  show ?thesis by simp
qed

subsection \<open>The build entry point\<close>

text \<open>
  The build directory is there, or \<^verbatim>\<open>os.makedirs\<close> makes it, when the cache directory
  is a directory or can itself be made; the cache directory is then a directory and
  the lock path is as it was. The lock can be taken when the lock path is not a
  directory.
\<close>

lemma files_logger_info [simp]: "files (logger_info msg st) = files st"
  by (simp add: logger_info_def)

lemma trace_logger_info [simp]: "trace (logger_info msg st) = trace st"
  by (simp add: logger_info_def)

lemma os_makedirs_in_directory:
  assumes "\<not> os_path_exists fs p" and "node_at fs (butlast p) = Some Dir"
  shows "os_makedirs p fs = (Inr (), (p, Dir) # fs)"
proof -
  from assms(2) have "os_path_exists fs (butlast p)" by (simp add: os_path_exists_def)
  then have "os_makedirs p fs = os_mkdir p fs" by (subst os_makedirs.simps) simp
  with os_mkdir_ok [OF assms] show ?thesis by simp
qed

lemma lock_path_not_build_directory: "jit @ [name @ ''.lock''] \<noteq> jit @ [name]"
  by simp

lemma lock_path_not_prefix:
  assumes "n \<le> length (jit @ [name])"
  shows "jit @ [name @ ''.lock''] \<noteq> take n (jit @ [name])"
proof
  assume eq: "jit @ [name @ ''.lock''] = take n (jit @ [name])"
  then have "length (jit @ [name @ ''.lock'']) = length (take n (jit @ [name]))" by simp
  with assms have "n = length (jit @ [name])" by simp
  with eq show False by simp
qed

lemma build_directory_made:
  assumes "node_at fs jit = Some Dir
           \<or> (\<not> os_path_exists fs (jit @ [name])
               \<and> (\<forall>n \<le> length jit. node_at fs (take n jit) \<noteq> Some File))"
  shows "\<exists>fs2. (if \<not> os_path_exists fs (jit @ [name]) then os_makedirs (jit @ [name]) fs
               else (Inr (), fs)) = (Inr (), fs2)
           \<and> node_at fs2 jit = Some Dir
           \<and> node_at fs2 (jit @ [name @ ''.lock'']) = node_at fs (jit @ [name @ ''.lock''])"
proof (cases "os_path_exists fs (jit @ [name])")
  case True
  with assms show ?thesis by simp
next
  case False
  show ?thesis
  proof (cases "node_at fs jit = Some Dir")
    case True
    from os_makedirs_in_directory [OF False] True
    have "os_makedirs (jit @ [name]) fs = (Inr (), (jit @ [name], Dir) # fs)" by simp
    with False True show ?thesis by (simp add: node_at_Cons)
  next
    case nd: False
    with assms have "\<forall>n \<le> length jit. node_at fs (take n jit) \<noteq> Some File" by simp
    then have "\<forall>n < length (jit @ [name]). node_at fs (take n (jit @ [name])) \<noteq> Some File"
      by simp
    from os_makedirs_creates [OF False this]
    obtain fs2 where mk: "os_makedirs (jit @ [name]) fs = (Inr (), fs2)"
      and par: "node_at fs2 (butlast (jit @ [name])) = Some Dir"
      and keep: "\<forall>q. node_at fs q \<noteq> None \<longrightarrow> node_at fs2 q = node_at fs q"
      and new: "\<forall>q. node_at fs q = None \<and> node_at fs2 q \<noteq> None \<longrightarrow>
           node_at fs2 q = Some Dir \<and> (\<exists>n \<le> length (jit @ [name]). q = take n (jit @ [name]))"
      by blast
    have lk: "node_at fs2 (jit @ [name @ ''.lock'']) = node_at fs (jit @ [name @ ''.lock''])"
    proof (cases "node_at fs (jit @ [name @ ''.lock'']) = None")
      case False
      with keep show ?thesis by blast
    next
      case True
      have "node_at fs2 (jit @ [name @ ''.lock'']) = None"
      proof (rule ccontr)
        assume "node_at fs2 (jit @ [name @ ''.lock'']) \<noteq> None"
        with new True obtain n where "n \<le> length (jit @ [name])"
          "jit @ [name @ ''.lock''] = take n (jit @ [name])" by blast
        with lock_path_not_prefix show False by blast
      qed
      with True show ?thesis by simp
    qed
    from mk par lk False show ?thesis by simp
  qed
qed

lemma file_lock_acquire_ok:
  assumes "node_at fs jit = Some Dir" and "node_at fs (jit @ [lockname]) \<noteq> Some Dir"
  shows "fst (file_lock_acquire (jit @ [lockname]) fs) = Inr ()"
proof (cases "node_at fs (jit @ [lockname])")
  case None
  with assms(1) show ?thesis by (simp add: file_lock_acquire_def)
next
  case (Some k)
  with assms(2) have "k = File" by (cases k) auto
  with Some show ?thesis by (simp add: file_lock_acquire_def)
qed

text \<open>
  The five ways through \<open>load_cuda_ops\<close>: the capability check raises (the toolchain
  query or the loop); making the build directory raises; taking the lock raises;
  otherwise the loader is called under the lock, and what it returns or raises is the
  outcome of the call.
\<close>

lemma load_cuda_ops_cases:
  fixes load :: "load_args \<Rightarrow> fs \<Rightarrow> (py_error + 'm) \<times> fs"
  assumes made: "made = (if \<not> os_path_exists (files st) (FLASHINFER_JIT_DIR env @ [name])
                     then os_makedirs (FLASHINFER_JIT_DIR env @ [name]) (files st)
                     else (Inr (), files st))"
    and locked: "locked = file_lock_acquire (FLASHINFER_JIT_DIR env @ [name @ ''.lock''])
                            (snd made)"
    and args: "args =
       \<lparr>la_name = name,
        la_sources = map py_str sources,
        la_extra_cflags = [''-O3'', ''-Wno-switch-bool''] @ extra_cflags,
        la_extra_cuda_cflags =
          [''-O3'', ''-std=c++17'', ''--threads'', ''4'', ''-use_fast_math'',
           ''-DFLASHINFER_ENABLE_BF16'', ''-DFLASHINFER_ENABLE_FP8''] @ extra_cuda_cflags,
        la_extra_ldflags = extra_ldflags,
        la_extra_include_paths =
          (case extra_include_paths of
             None \<Rightarrow> map path_str ([FLASHINFER_INCLUDE_DIR env, FLASHINFER_CSRC_DIR env]
                       @ CUTLASS_INCLUDE_DIRS env)
           | Some ps \<Rightarrow> map py_str ps),
        la_build_directory = FLASHINFER_JIT_DIR env @ [name],
        la_verbose = verbose,
        la_with_cuda = True\<rparr>"
  shows "load_cuda_ops env toolchain load name sources extra_cflags extra_cuda_cflags
       extra_ldflags extra_include_paths verbose st =
     (case check_cuda_arch_call toolchain of
        Inl e \<Rightarrow> (Inl e, logger_info (''Loading JIT ops: '' @ name) st)
      | Inr _ \<Rightarrow>
          (case fst made of
             Inl e \<Rightarrow> (Inl e, (logger_info (''Loading JIT ops: '' @ name) st)\<lparr>files := snd made\<rparr>)
           | Inr _ \<Rightarrow>
               (case fst locked of
                  Inl e \<Rightarrow>
                    (Inl e, (logger_info (''Loading JIT ops: '' @ name) st)\<lparr>files := snd locked\<rparr>)
                | Inr _ \<Rightarrow>
                    (fst (load args (snd locked)),
                     (logger_info (''Loading JIT ops: '' @ name) st)
                       \<lparr>files := snd (load args (snd locked)),
                        trace := trace st @
                          [LockAcquire (FLASHINFER_JIT_DIR env @ [name @ ''.lock'']),
                           LoaderCall args,
                           LockRelease (FLASHINFER_JIT_DIR env @ [name @ ''.lock''])]\<rparr>))))"
proof -
  let ?st1 = "logger_info (''Loading JIT ops: '' @ name) st"
  let ?bd = "FLASHINFER_JIT_DIR env @ [name]"
  let ?lock = "FLASHINFER_JIT_DIR env @ [name @ ''.lock'']"
  obtain r2 fs2 where m: "made = (r2, fs2)" by (cases made)
  obtain r3 fs3 where l: "locked = (r3, fs3)" by (cases locked)
  have ens: "(if \<not> os_path_exists (files ?st1) ?bd then os_makedirs ?bd (files ?st1)
              else (Inr (), files ?st1)) = (r2, fs2)"
    using made m by (simp only: files_logger_info)
  have lck: "file_lock_acquire ?lock fs2 = (r3, fs3)"
    using locked l m by simp
  show ?thesis
  proof (cases "check_cuda_arch_call toolchain")
    case (Inl e)
    then show ?thesis by (simp add: load_cuda_ops_def)
  next
    case c: (Inr u)
    show ?thesis
    proof (cases r2)
      case (Inl e)
      show ?thesis
        unfolding load_cuda_ops_def Let_def
        by (simp only: c ens Inl m sum.case prod.case fst_conv snd_conv)
    next
      case r2: (Inr u2)
      show ?thesis
      proof (cases r3)
        case (Inl e)
        show ?thesis
          unfolding load_cuda_ops_def Let_def
          by (simp only: c ens r2 lck Inl m l sum.case prod.case fst_conv snd_conv)
      next
        case r3: (Inr u3)
        show ?thesis
          unfolding load_cuda_ops_def Let_def
          apply (simp only: c ens r2 lck r3 m l sum.case prod.case fst_conv snd_conv)
          apply (cases extra_include_paths)
           apply (simp_all add: split_beta comp_def args)
          done
      qed
    qed
  qed
qed

lemma check_cuda_arch_RuntimeErrorD:
  "check_cuda_arch flags = Inl RuntimeError \<Longrightarrow>
   \<exists>f \<in> set flags. \<exists>n. extract_arch f = Some n \<and> n < 75"
  by (induction flags) (auto simp: check_cuda_arch_Cons split: option.splits if_splits)

text \<open>
  Claim C2, as stated, says that when no architecture is below 75 the only exceptions
  that leave \<open>load_cuda_ops\<close> are those of the loader, none being added by this layer.
  It fails: with architecture 80 and a loader that never raises, a regular file in the
  place of the cache directory makes \<^verbatim>\<open>os.makedirs\<close> raise \<^verbatim>\<open>NotADirectoryError\<close>, which
  leaves \<open>load_cuda_ops\<close> before the loader is called.
\<close>

theorem load_cuda_ops_adds_exception:
  "(\<forall>args fs. fst (stub_load args fs) = Inr 0)
   \<and> extract_arch ''compute_80'' = Some 80
   \<and> fst (load_cuda_ops example_env (Inr [''compute_80'']) stub_load ''m'' [] [] [] None None False
        \<lparr>files = [([''home'', ''ws'', ''cached_ops''], File), ([''home'', ''ws''], Dir),
                  ([''home''], Dir)],
         log = [], trace = []\<rparr>) = Inl NotADirectoryError"
proof -
  have "extract_arch ''compute_80'' = Some 80" by code_simp
  moreover have "fst (load_cuda_ops example_env (Inr [''compute_80'']) stub_load ''m'' [] [] [] None
        None False
        \<lparr>files = [([''home'', ''ws'', ''cached_ops''], File), ([''home'', ''ws''], Dir),
                  ([''home''], Dir)],
         log = [], trace = []\<rparr>) = Inl NotADirectoryError"
    by code_simp
  ultimately show ?thesis by simp
qed

text \<open>
  Claim C2, amended. When the toolchain returned its flags and some architecture number
  is below 75, \<open>load_cuda_ops\<close> raises before the loader is called
  (\<^verbatim>\<open>RuntimeError\<close> when every flag string has a marker, else possibly
  \<^verbatim>\<open>AttributeError\<close>), and the file system and the trace are as before, so no build
  directory was made. Every call ends in one of five ways. In four of them an exception
  leaves before the loader is called: the exception of the toolchain query; the
  \<^verbatim>\<open>RuntimeError\<close> or \<^verbatim>\<open>AttributeError\<close> of the check; the exception of
  \<^verbatim>\<open>os.makedirs\<close> for the build directory; the exception of taking the lock. In the
  fifth the loader is called once, under the lock, and what \<open>load_cuda_ops\<close> returns
  or raises is exactly what the loader returned or raised. The check raises
  \<^verbatim>\<open>RuntimeError\<close> only when some architecture number is below 75.
\<close>

theorem load_cuda_ops_failure_signal:
  fixes load :: "load_args \<Rightarrow> fs \<Rightarrow> (py_error + 'm) \<times> fs"
  assumes R: "R = load_cuda_ops env toolchain load name sources extra_cflags extra_cuda_cflags
       extra_ldflags extra_include_paths verbose st"
    and st1: "st1 = logger_info (''Loading JIT ops: '' @ name) st"
    and made: "made = (if \<not> os_path_exists (files st) (FLASHINFER_JIT_DIR env @ [name])
                     then os_makedirs (FLASHINFER_JIT_DIR env @ [name]) (files st)
                     else (Inr (), files st))"
    and locked: "locked = file_lock_acquire (FLASHINFER_JIT_DIR env @ [name @ ''.lock''])
                            (snd made)"
    and args: "args =
       \<lparr>la_name = name,
        la_sources = map py_str sources,
        la_extra_cflags = [''-O3'', ''-Wno-switch-bool''] @ extra_cflags,
        la_extra_cuda_cflags =
          [''-O3'', ''-std=c++17'', ''--threads'', ''4'', ''-use_fast_math'',
           ''-DFLASHINFER_ENABLE_BF16'', ''-DFLASHINFER_ENABLE_FP8''] @ extra_cuda_cflags,
        la_extra_ldflags = extra_ldflags,
        la_extra_include_paths =
          (case extra_include_paths of
             None \<Rightarrow> map path_str ([FLASHINFER_INCLUDE_DIR env, FLASHINFER_CSRC_DIR env]
                       @ CUTLASS_INCLUDE_DIRS env)
           | Some ps \<Rightarrow> map py_str ps),
        la_build_directory = FLASHINFER_JIT_DIR env @ [name],
        la_verbose = verbose,
        la_with_cuda = True\<rparr>"
  shows "(toolchain = Inr flags \<and> (\<exists>f \<in> set flags. \<exists>n. extract_arch f = Some n \<and> n < 75) \<longrightarrow>
            (\<exists>e. R = (Inl e, st1) \<and> (e = RuntimeError \<or> e = AttributeError)
                  \<and> ((\<forall>f \<in> set flags. extract_arch f \<noteq> None) \<longrightarrow> e = RuntimeError))
            \<and> files (snd R) = files st \<and> trace (snd R) = trace st)
         \<and> ((\<exists>e. toolchain = Inl e \<and> R = (Inl e, st1))
             \<or> (\<exists>flags e. toolchain = Inr flags \<and> check_cuda_arch flags = Inl e
                   \<and> (e = RuntimeError \<or> e = AttributeError) \<and> R = (Inl e, st1))
             \<or> (\<exists>e. check_cuda_arch_call toolchain = Inr () \<and> fst made = Inl e
                   \<and> R = (Inl e, st1\<lparr>files := snd made\<rparr>))
             \<or> (\<exists>e. check_cuda_arch_call toolchain = Inr () \<and> fst made = Inr ()
                   \<and> fst locked = Inl e \<and> R = (Inl e, st1\<lparr>files := snd locked\<rparr>))
             \<or> (check_cuda_arch_call toolchain = Inr () \<and> fst made = Inr ()
                   \<and> fst locked = Inr ()
                   \<and> R = (fst (load args (snd locked)),
                          st1\<lparr>files := snd (load args (snd locked)),
                              trace := trace st @
                                [LockAcquire (FLASHINFER_JIT_DIR env @ [name @ ''.lock'']),
                                 LoaderCall args,
                                 LockRelease (FLASHINFER_JIT_DIR env @ [name @ ''.lock''])]\<rparr>)))
         \<and> (toolchain = Inr flags \<and> check_cuda_arch flags = Inl RuntimeError \<longrightarrow>
              (\<exists>f \<in> set flags. \<exists>n. extract_arch f = Some n \<and> n < 75))"
proof (intro conjI)
  note cases = load_cuda_ops_cases [OF made locked args, of toolchain load, folded R st1]
  show "toolchain = Inr flags \<and> (\<exists>f \<in> set flags. \<exists>n. extract_arch f = Some n \<and> n < 75) \<longrightarrow>
            (\<exists>e. R = (Inl e, st1) \<and> (e = RuntimeError \<or> e = AttributeError)
                  \<and> ((\<forall>f \<in> set flags. extract_arch f \<noteq> None) \<longrightarrow> e = RuntimeError))
            \<and> files (snd R) = files st \<and> trace (snd R) = trace st"
  proof
    assume a: "toolchain = Inr flags \<and> (\<exists>f \<in> set flags. \<exists>n. extract_arch f = Some n \<and> n < 75)"
    then obtain f n where "f \<in> set flags" "extract_arch f = Some n" "n < 75" by blast
    then have "\<not> (\<forall>f \<in> set flags. \<exists>n. extract_arch f = Some n \<and> 75 \<le> n)"
      by fastforce
    then have "check_cuda_arch flags \<noteq> Inr ()"
      using check_cuda_arch_accepts_iff [of flags] by blast
    with check_cuda_arch_results [of flags]
    obtain e where e: "check_cuda_arch flags = Inl e" "e = RuntimeError \<or> e = AttributeError"
      by auto
    from a e(1) have "check_cuda_arch_call toolchain = Inl e"
      by (simp add: check_cuda_arch_call_def)
    with cases have res: "R = (Inl e, st1)" by simp
    have "(\<forall>f \<in> set flags. extract_arch f \<noteq> None) \<longrightarrow> e = RuntimeError"
    proof
      assume "\<forall>f \<in> set flags. extract_arch f \<noteq> None"
      from check_cuda_arch_no_AttributeError [OF this] e show "e = RuntimeError" by auto
    qed
    with res e(2) have "\<exists>e. R = (Inl e, st1) \<and> (e = RuntimeError \<or> e = AttributeError)
                  \<and> ((\<forall>f \<in> set flags. extract_arch f \<noteq> None) \<longrightarrow> e = RuntimeError)"
      by blast
    moreover from res st1 have "files (snd R) = files st" "trace (snd R) = trace st"
      by simp_all
    ultimately show "(\<exists>e. R = (Inl e, st1) \<and> (e = RuntimeError \<or> e = AttributeError)
                  \<and> ((\<forall>f \<in> set flags. extract_arch f \<noteq> None) \<longrightarrow> e = RuntimeError))
            \<and> files (snd R) = files st \<and> trace (snd R) = trace st"
      by blast
  qed
next
  note cases = load_cuda_ops_cases [OF made locked args, of toolchain load, folded R st1]
  show "(\<exists>e. toolchain = Inl e \<and> R = (Inl e, st1))
             \<or> (\<exists>flags e. toolchain = Inr flags \<and> check_cuda_arch flags = Inl e
                   \<and> (e = RuntimeError \<or> e = AttributeError) \<and> R = (Inl e, st1))
             \<or> (\<exists>e. check_cuda_arch_call toolchain = Inr () \<and> fst made = Inl e
                   \<and> R = (Inl e, st1\<lparr>files := snd made\<rparr>))
             \<or> (\<exists>e. check_cuda_arch_call toolchain = Inr () \<and> fst made = Inr ()
                   \<and> fst locked = Inl e \<and> R = (Inl e, st1\<lparr>files := snd locked\<rparr>))
             \<or> (check_cuda_arch_call toolchain = Inr () \<and> fst made = Inr ()
                   \<and> fst locked = Inr ()
                   \<and> R = (fst (load args (snd locked)),
                          st1\<lparr>files := snd (load args (snd locked)),
                              trace := trace st @
                                [LockAcquire (FLASHINFER_JIT_DIR env @ [name @ ''.lock'']),
                                 LoaderCall args,
                                 LockRelease (FLASHINFER_JIT_DIR env @ [name @ ''.lock''])]\<rparr>))"
  proof (cases toolchain)
    case (Inl e)
    then have "check_cuda_arch_call toolchain = Inl e" by (simp add: check_cuda_arch_call_def)
    with cases Inl show ?thesis by simp
  next
    case t: (Inr flags)
    show ?thesis
    proof (cases "check_cuda_arch flags")
      case (Inl e)
      with check_cuda_arch_results [of flags] have e: "e = RuntimeError \<or> e = AttributeError"
        by auto
      from t Inl have "check_cuda_arch_call toolchain = Inl e"
        by (simp add: check_cuda_arch_call_def)
      with cases have "R = (Inl e, st1)" by simp
      with t Inl e show ?thesis by blast
    next
      case (Inr u)
      with t have c: "check_cuda_arch_call toolchain = Inr ()"
        by (simp add: check_cuda_arch_call_def)
      show ?thesis
      proof (cases "fst made")
        case (Inl e)
        with cases c have "R = (Inl e, st1\<lparr>files := snd made\<rparr>)" by simp
        with c Inl show ?thesis by blast
      next
        case m: (Inr u2)
        show ?thesis
        proof (cases "fst locked")
          case (Inl e)
          with cases c m have "R = (Inl e, st1\<lparr>files := snd locked\<rparr>)" by simp
          with c m Inl show ?thesis by simp
        next
          case l: (Inr u3)
          with cases c m have "R = (fst (load args (snd locked)),
                          st1\<lparr>files := snd (load args (snd locked)),
                              trace := trace st @
                                [LockAcquire (FLASHINFER_JIT_DIR env @ [name @ ''.lock'']),
                                 LoaderCall args,
                                 LockRelease (FLASHINFER_JIT_DIR env @ [name @ ''.lock''])]\<rparr>)"
            by simp
          with c m l show ?thesis by simp
        qed
      qed
    qed
  qed
next
  show "toolchain = Inr flags \<and> check_cuda_arch flags = Inl RuntimeError \<longrightarrow>
              (\<exists>f \<in> set flags. \<exists>n. extract_arch f = Some n \<and> n < 75)"
    using check_cuda_arch_RuntimeErrorD by blast
qed

theorem load_cuda_ops_failure_signal_witness:
  "extract_arch ''compute_70'' = Some 70
   \<and> load_cuda_ops example_env (Inr [''compute_70'']) failing_load ''m'' [] [] [] None None False
        example_state
      = (Inl RuntimeError,
         \<lparr>files = [([''home'', ''ws''], Dir), ([''home''], Dir)],
          log = [''flashinfer.jit: Loading JIT ops: m''],
          trace = []\<rparr>)
   \<and> check_cuda_arch_call (Inr [''compute_80'']) = Inr ()
   \<and> fst (load_cuda_ops example_env (Inr [''compute_80'']) failing_load ''m'' [] [] [] None None
        False example_state) = Inl (OtherError ''nvcc'')"
proof -
  have e70: "extract_arch ''compute_70'' = Some 70" by code_simp
  have c80: "check_cuda_arch_call (Inr [''compute_80'']) = Inr ()" by code_simp
  have k80: "check_cuda_arch [''compute_80''] = Inr ()" by code_simp
  have m: "fst (if \<not> os_path_exists (files example_state) (FLASHINFER_JIT_DIR example_env @ [''m''])
                then os_makedirs (FLASHINFER_JIT_DIR example_env @ [''m'']) (files example_state)
                else (Inr (), files example_state)) = Inr ()"
    by code_simp
  have l: "fst (file_lock_acquire (FLASHINFER_JIT_DIR example_env @ [''m'' @ ''.lock''])
             (snd (if \<not> os_path_exists (files example_state) (FLASHINFER_JIT_DIR example_env @ [''m''])
                then os_makedirs (FLASHINFER_JIT_DIR example_env @ [''m'']) (files example_state)
                else (Inr (), files example_state)))) = Inr ()"
    by code_simp
  note t70 = load_cuda_ops_failure_signal
      [where R = "load_cuda_ops example_env (Inr [''compute_70'']) failing_load ''m'' [] [] [] None
         None False example_state" and flags = "[''compute_70'']", OF refl refl refl refl refl]
  note t80 = load_cuda_ops_failure_signal
      [where R = "load_cuda_ops example_env (Inr [''compute_80'']) failing_load ''m'' [] [] [] None
         None False example_state" and flags = "[''compute_80'']", OF refl refl refl refl refl]
  from t70 e70
  have r70: "load_cuda_ops example_env (Inr [''compute_70'']) failing_load ''m'' [] [] [] None None
        False example_state
      = (Inl RuntimeError, logger_info (''Loading JIT ops: '' @ ''m'') example_state)"
    by auto
  from t80 c80 k80 m l
  have r80: "fst (load_cuda_ops example_env (Inr [''compute_80'']) failing_load ''m'' [] [] [] None
        None False example_state) = Inl (OtherError ''nvcc'')"
    by auto
  from e70 r70 c80 r80 show ?thesis by (simp add: logger_info_def)
qed

text \<open>
  Claim C10. When the capability check passes, the build directory is there and the
  lock is taken, \<open>load_cuda_ops\<close> applies the loader, whatever it is, to exactly these
  arguments and returns its outcome: the host flags \<^verbatim>\<open>-O3 -Wno-switch-bool\<close> followed
  by \<open>extra_cflags\<close>, the seven device flags followed by \<open>extra_cuda_cflags\<close>, and as
  include paths the caller's, or by default the include directory, the csrc directory
  and then the template library's include directories, each as a string. In every
  other call the outcome is an exception that does not depend on the loader, which is
  not called. The loader is reached when the toolchain's flags all pass the check, the
  cache directory is a directory or can be made, and the lock path is not a directory.
\<close>

theorem load_cuda_ops_loader_arguments:
  assumes made: "made = (if \<not> os_path_exists (files st) (FLASHINFER_JIT_DIR env @ [name])
                     then os_makedirs (FLASHINFER_JIT_DIR env @ [name]) (files st)
                     else (Inr (), files st))"
    and locked: "locked = file_lock_acquire (FLASHINFER_JIT_DIR env @ [name @ ''.lock''])
                            (snd made)"
    and args: "args =
       \<lparr>la_name = name,
        la_sources = map py_str sources,
        la_extra_cflags = [''-O3'', ''-Wno-switch-bool''] @ extra_cflags,
        la_extra_cuda_cflags =
          [''-O3'', ''-std=c++17'', ''--threads'', ''4'', ''-use_fast_math'',
           ''-DFLASHINFER_ENABLE_BF16'', ''-DFLASHINFER_ENABLE_FP8''] @ extra_cuda_cflags,
        la_extra_ldflags = extra_ldflags,
        la_extra_include_paths =
          (case extra_include_paths of
             None \<Rightarrow> map path_str ([FLASHINFER_INCLUDE_DIR env, FLASHINFER_CSRC_DIR env]
                       @ CUTLASS_INCLUDE_DIRS env)
           | Some ps \<Rightarrow> map py_str ps),
        la_build_directory = FLASHINFER_JIT_DIR env @ [name],
        la_verbose = verbose,
        la_with_cuda = True\<rparr>"
  shows "(check_cuda_arch_call toolchain = Inr () \<and> fst made = Inr () \<and> fst locked = Inr () \<longrightarrow>
            (\<forall>load :: load_args \<Rightarrow> fs \<Rightarrow> (py_error + 'm) \<times> fs.
               load_cuda_ops env toolchain load name sources extra_cflags extra_cuda_cflags
                 extra_ldflags extra_include_paths verbose st
               = (fst (load args (snd locked)),
                  (logger_info (''Loading JIT ops: '' @ name) st)
                    \<lparr>files := snd (load args (snd locked)),
                     trace := trace st @
                       [LockAcquire (FLASHINFER_JIT_DIR env @ [name @ ''.lock'']),
                        LoaderCall args,
                        LockRelease (FLASHINFER_JIT_DIR env @ [name @ ''.lock''])]\<rparr>)))
         \<and> (\<not> (check_cuda_arch_call toolchain = Inr () \<and> fst made = Inr ()
                 \<and> fst locked = Inr ()) \<longrightarrow>
            (\<exists>e st'. \<forall>load :: load_args \<Rightarrow> fs \<Rightarrow> (py_error + 'm) \<times> fs.
               load_cuda_ops env toolchain load name sources extra_cflags extra_cuda_cflags
                 extra_ldflags extra_include_paths verbose st = (Inl e, st')))
         \<and> (toolchain = Inr flags
              \<and> (\<forall>f \<in> set flags. \<exists>n. extract_arch f = Some n \<and> 75 \<le> n)
              \<and> (node_at (files st) (FLASHINFER_JIT_DIR env) = Some Dir
                  \<or> (\<not> os_path_exists (files st) (FLASHINFER_JIT_DIR env @ [name])
                      \<and> (\<forall>n \<le> length (FLASHINFER_JIT_DIR env).
                            node_at (files st) (take n (FLASHINFER_JIT_DIR env)) \<noteq> Some File)))
              \<and> node_at (files st) (FLASHINFER_JIT_DIR env @ [name @ ''.lock'']) \<noteq> Some Dir \<longrightarrow>
            check_cuda_arch_call toolchain = Inr () \<and> fst made = Inr () \<and> fst locked = Inr ())"
proof (intro conjI impI allI)
  fix load :: "load_args \<Rightarrow> fs \<Rightarrow> (py_error + 'm) \<times> fs"
  assume "check_cuda_arch_call toolchain = Inr () \<and> fst made = Inr () \<and> fst locked = Inr ()"
  with load_cuda_ops_cases [OF made locked args, of toolchain load]
  show "load_cuda_ops env toolchain load name sources extra_cflags extra_cuda_cflags
                 extra_ldflags extra_include_paths verbose st
               = (fst (load args (snd locked)),
                  (logger_info (''Loading JIT ops: '' @ name) st)
                    \<lparr>files := snd (load args (snd locked)),
                     trace := trace st @
                       [LockAcquire (FLASHINFER_JIT_DIR env @ [name @ ''.lock'']),
                        LoaderCall args,
                        LockRelease (FLASHINFER_JIT_DIR env @ [name @ ''.lock''])]\<rparr>)"
    by simp
next
  let ?st1 = "logger_info (''Loading JIT ops: '' @ name) st"
  assume n: "\<not> (check_cuda_arch_call toolchain = Inr () \<and> fst made = Inr ()
                 \<and> fst locked = Inr ())"
  note cases = load_cuda_ops_cases [OF made locked args, of toolchain]
  show "\<exists>e st'. \<forall>load :: load_args \<Rightarrow> fs \<Rightarrow> (py_error + 'm) \<times> fs.
               load_cuda_ops env toolchain load name sources extra_cflags extra_cuda_cflags
                 extra_ldflags extra_include_paths verbose st = (Inl e, st')"
  proof (cases "check_cuda_arch_call toolchain")
    case (Inl e)
    have "\<forall>load :: load_args \<Rightarrow> fs \<Rightarrow> (py_error + 'm) \<times> fs.
               load_cuda_ops env toolchain load name sources extra_cflags extra_cuda_cflags
                 extra_ldflags extra_include_paths verbose st = (Inl e, ?st1)"
    proof
      fix load :: "load_args \<Rightarrow> fs \<Rightarrow> (py_error + 'm) \<times> fs"
      from cases [of load] Inl
      show "load_cuda_ops env toolchain load name sources extra_cflags extra_cuda_cflags
                 extra_ldflags extra_include_paths verbose st = (Inl e, ?st1)"
        by simp
    qed
    then show ?thesis by blast
  next
    case c: (Inr u)
    show ?thesis
    proof (cases "fst made")
      case (Inl e)
      have "\<forall>load :: load_args \<Rightarrow> fs \<Rightarrow> (py_error + 'm) \<times> fs.
               load_cuda_ops env toolchain load name sources extra_cflags extra_cuda_cflags
                 extra_ldflags extra_include_paths verbose st
                 = (Inl e, ?st1\<lparr>files := snd made\<rparr>)"
      proof
        fix load :: "load_args \<Rightarrow> fs \<Rightarrow> (py_error + 'm) \<times> fs"
        from cases [of load] c Inl
        show "load_cuda_ops env toolchain load name sources extra_cflags extra_cuda_cflags
                 extra_ldflags extra_include_paths verbose st
                 = (Inl e, ?st1\<lparr>files := snd made\<rparr>)"
          by simp
      qed
      then show ?thesis by blast
    next
      case m: (Inr u2)
      with n c obtain e where l: "fst locked = Inl e" by (cases "fst locked") auto
      have "\<forall>load :: load_args \<Rightarrow> fs \<Rightarrow> (py_error + 'm) \<times> fs.
               load_cuda_ops env toolchain load name sources extra_cflags extra_cuda_cflags
                 extra_ldflags extra_include_paths verbose st
                 = (Inl e, ?st1\<lparr>files := snd locked\<rparr>)"
      proof
        fix load :: "load_args \<Rightarrow> fs \<Rightarrow> (py_error + 'm) \<times> fs"
        from cases [of load] c m l
        show "load_cuda_ops env toolchain load name sources extra_cflags extra_cuda_cflags
                 extra_ldflags extra_include_paths verbose st
                 = (Inl e, ?st1\<lparr>files := snd locked\<rparr>)"
          by simp
      qed
      then show ?thesis by blast
    qed
  qed
next
  assume a: "toolchain = Inr flags
              \<and> (\<forall>f \<in> set flags. \<exists>n. extract_arch f = Some n \<and> 75 \<le> n)
              \<and> (node_at (files st) (FLASHINFER_JIT_DIR env) = Some Dir
                  \<or> (\<not> os_path_exists (files st) (FLASHINFER_JIT_DIR env @ [name])
                      \<and> (\<forall>n \<le> length (FLASHINFER_JIT_DIR env).
                            node_at (files st) (take n (FLASHINFER_JIT_DIR env)) \<noteq> Some File)))
              \<and> node_at (files st) (FLASHINFER_JIT_DIR env @ [name @ ''.lock'']) \<noteq> Some Dir"
  then have "check_cuda_arch flags = Inr ()" by (simp add: check_cuda_arch_accepts_iff)
  with a show "check_cuda_arch_call toolchain = Inr ()" by (simp add: check_cuda_arch_call_def)
  from a have d: "node_at (files st) (FLASHINFER_JIT_DIR env) = Some Dir
                  \<or> (\<not> os_path_exists (files st) (FLASHINFER_JIT_DIR env @ [name])
                      \<and> (\<forall>n \<le> length (FLASHINFER_JIT_DIR env).
                            node_at (files st) (take n (FLASHINFER_JIT_DIR env)) \<noteq> Some File))"
    by simp
  from build_directory_made [OF d] made obtain fs2 where m: "made = (Inr (), fs2)"
    and j: "node_at fs2 (FLASHINFER_JIT_DIR env) = Some Dir"
    and k: "node_at fs2 (FLASHINFER_JIT_DIR env @ [name @ ''.lock''])
              = node_at (files st) (FLASHINFER_JIT_DIR env @ [name @ ''.lock''])"
    by auto
  from m show "fst made = Inr ()" by simp
  from a k have "node_at fs2 (FLASHINFER_JIT_DIR env @ [name @ ''.lock'']) \<noteq> Some Dir" by simp
  from file_lock_acquire_ok [OF j this] locked m show "fst locked = Inr ()" by simp
qed

theorem load_cuda_ops_loader_arguments_witness:
  "check_cuda_arch_call (Inr [''compute_80'']) = Inr ()
   \<and> fst (load_cuda_ops example_env (Inr [''compute_80'']) echo_load ''m''
        [Str ''a.cu'', PathObj (Relative [''src'', ''b.cu''])] [''-g''] [''-lineinfo''] None None
        False example_state)
      = Inr \<lparr>la_name = ''m'',
             la_sources = [''a.cu'', ''src/b.cu''],
             la_extra_cflags = [''-O3'', ''-Wno-switch-bool'', ''-g''],
             la_extra_cuda_cflags =
               [''-O3'', ''-std=c++17'', ''--threads'', ''4'', ''-use_fast_math'',
                ''-DFLASHINFER_ENABLE_BF16'', ''-DFLASHINFER_ENABLE_FP8'', ''-lineinfo''],
             la_extra_ldflags = None,
             la_extra_include_paths = [''/pkg/include'', ''/pkg/csrc'', ''/cutlass/include''],
             la_build_directory = [''home'', ''ws'', ''cached_ops'', ''m''],
             la_verbose = False,
             la_with_cuda = True\<rparr>
   \<and> check_cuda_arch_call (Inr [''compute_70'']) = Inl RuntimeError
   \<and> (\<exists>e st'. \<forall>load :: load_args \<Rightarrow> fs \<Rightarrow> (py_error + load_args) \<times> fs.
          load_cuda_ops example_env (Inr [''compute_70'']) load ''m''
            [Str ''a.cu'', PathObj (Relative [''src'', ''b.cu''])] [''-g''] [''-lineinfo''] None None
            False example_state = (Inl e, st'))"
proof -
  have c80: "check_cuda_arch_call (Inr [''compute_80'']) = Inr ()" by code_simp
  have c70: "check_cuda_arch_call (Inr [''compute_70'']) = Inl RuntimeError" by code_simp
  have e80: "extract_arch ''compute_80'' = Some 80" by code_simp
  have nofile: "\<forall>n \<le> length (FLASHINFER_JIT_DIR example_env).
      node_at (files example_state) (take n (FLASHINFER_JIT_DIR example_env)) \<noteq> Some File"
    by (simp add: node_at_def take_Cons split: nat.split)
  have absent: "\<not> os_path_exists (files example_state) (FLASHINFER_JIT_DIR example_env @ [''m''])"
    by (simp add: os_path_exists_def node_at_def)
  have nolockdir: "node_at (files example_state)
      (FLASHINFER_JIT_DIR example_env @ [''m'' @ ''.lock'']) \<noteq> Some Dir"
    by (simp add: node_at_def)
  note t80 = load_cuda_ops_loader_arguments
      [where env = example_env and st = example_state and name = "''m''"
         and toolchain = "Inr [''compute_80'']" and flags = "[''compute_80'']"
         and sources = "[Str ''a.cu'', PathObj (Relative [''src'', ''b.cu''])]"
         and extra_cflags = "[''-g'']" and extra_cuda_cflags = "[''-lineinfo'']"
         and extra_ldflags = None and extra_include_paths = None and verbose = False,
       OF refl refl refl]
  note t70 = load_cuda_ops_loader_arguments
      [where env = example_env and st = example_state and name = "''m''"
         and toolchain = "Inr [''compute_70'']" and flags = "[''compute_70'']"
         and sources = "[Str ''a.cu'', PathObj (Relative [''src'', ''b.cu''])]"
         and extra_cflags = "[''-g'']" and extra_cuda_cflags = "[''-lineinfo'']"
         and extra_ldflags = None and extra_include_paths = None and verbose = False,
       OF refl refl refl]
  have cond: "Inr [''compute_80''] = (Inr [''compute_80''] :: py_error + string list)
      \<and> (\<forall>f \<in> set [''compute_80'']. \<exists>n. extract_arch f = Some n \<and> 75 \<le> n)
      \<and> (node_at (files example_state) (FLASHINFER_JIT_DIR example_env) = Some Dir
          \<or> (\<not> os_path_exists (files example_state) (FLASHINFER_JIT_DIR example_env @ [''m''])
              \<and> (\<forall>n \<le> length (FLASHINFER_JIT_DIR example_env).
                    node_at (files example_state) (take n (FLASHINFER_JIT_DIR example_env))
                      \<noteq> Some File)))
      \<and> node_at (files example_state) (FLASHINFER_JIT_DIR example_env @ [''m'' @ ''.lock''])
            \<noteq> Some Dir"
    using e80 nofile absent nolockdir by simp
  note reached = t80 [THEN conjunct2, THEN conjunct2, THEN mp, OF cond]
  note called = t80 [THEN conjunct1, THEN mp, OF reached, THEN spec, of echo_load]
  have echo: "fst (load_cuda_ops example_env (Inr [''compute_80'']) echo_load ''m''
        [Str ''a.cu'', PathObj (Relative [''src'', ''b.cu''])] [''-g''] [''-lineinfo''] None None
        False example_state)
      = Inr \<lparr>la_name = ''m'',
             la_sources = [''a.cu'', ''src/b.cu''],
             la_extra_cflags = [''-O3'', ''-Wno-switch-bool'', ''-g''],
             la_extra_cuda_cflags =
               [''-O3'', ''-std=c++17'', ''--threads'', ''4'', ''-use_fast_math'',
                ''-DFLASHINFER_ENABLE_BF16'', ''-DFLASHINFER_ENABLE_FP8'', ''-lineinfo''],
             la_extra_ldflags = None,
             la_extra_include_paths = [''/pkg/include'', ''/pkg/csrc'', ''/cutlass/include''],
             la_build_directory = [''home'', ''ws'', ''cached_ops'', ''m''],
             la_verbose = False,
             la_with_cuda = True\<rparr>"
    by (subst called) simp
  from t70 [THEN conjunct2, THEN conjunct1] c70
  have notcalled: "\<exists>e st'. \<forall>load :: load_args \<Rightarrow> fs \<Rightarrow> (py_error + load_args) \<times> fs.
          load_cuda_ops example_env (Inr [''compute_70'']) load ''m''
            [Str ''a.cu'', PathObj (Relative [''src'', ''b.cu''])] [''-g''] [''-lineinfo''] None None
            False example_state = (Inl e, st')"
    by simp
  from c80 echo c70 notcalled show ?thesis by blast
qed

end
